theory Spec2Isabelle
  imports Complex_Main
begin

section \<open>Python values, exceptions and the library functions the code calls\<close>

text \<open>
  The values that travel as messages are the Python values \<^verbatim>\<open>json.loads\<close> can return:
  \<^verbatim>\<open>None\<close>, booleans, integers, floats, strings, lists and dicts. A dict is kept as
  its list of pairs in source order; a lookup takes the last pair with the key, as a
  Python dict built from those pairs does.
\<close>

datatype json =
    JNull
  | JBool bool
  | JInt int
  | JFloat real
  | JStr string
  | JArr "json list"
  | JObj "(string \<times> json) list"

datatype exn =
    AttributeError
  | KeyError
  | TypeError
  | IndexError
  | ValueError
  | OSError

text \<open>
  How a call ends: it returns a value, it raises, or it never returns because it waits
  for a \<^verbatim>\<open>threading.Lock\<close> that is held (the lock is not re-entrant), or because it
  waits in \<^verbatim>\<open>recv\<close> for data that has not arrived.
\<close>

datatype 'a outcome =
    Returns 'a
  | Raises exn
  | BlocksOnLock
  | BlocksOnRecv

abbreviation NL :: char where
  "NL \<equiv> CHR 0x0A"

text \<open>
  \<^verbatim>\<open>json.dumps\<close>, \<^verbatim>\<open>json.loads\<close> (\<open>None\<close> is \<^verbatim>\<open>JSONDecodeError\<close>) and
  \<^verbatim>\<open>pd.to_datetime\<close> (\<open>None\<close> is the exception it raises on a value it cannot
  convert) are library code: the model takes them as parameters. A timestamp is
  represented by its ISO-8601 text.
\<close>

type_synonym timestamp = string

record lib =
  dumps :: "json \<Rightarrow> string"
  loads :: "string \<Rightarrow> json option"
  to_datetime :: "json \<Rightarrow> timestamp option"

text \<open>\<^verbatim>\<open>d[k]\<close> and \<^verbatim>\<open>d.get(k)\<close> on a value that came out of \<^verbatim>\<open>json.loads\<close>.\<close>

definition dict_lookup :: "(string \<times> json) list \<Rightarrow> string \<Rightarrow> json option" where
  "dict_lookup kvs k = map_of (rev kvs) k"

fun subscript :: "json \<Rightarrow> string \<Rightarrow> exn + json" where
  "subscript (JObj kvs) k = (case dict_lookup kvs k of None \<Rightarrow> Inl KeyError | Some v \<Rightarrow> Inr v)"
| "subscript _ k = Inl TypeError"

fun get :: "json \<Rightarrow> string \<Rightarrow> exn + json" where
  "get (JObj kvs) k = (case dict_lookup kvs k of None \<Rightarrow> Inr JNull | Some v \<Rightarrow> Inr v)"
| "get _ k = Inl AttributeError"

section \<open>Sockets\<close>

text \<open>
  One end of a TCP connection, as the code uses it: \<open>closed\<close> after \<^verbatim>\<open>close()\<close> on this
  end, \<open>broken\<close> when the transport refuses writes (the peer is gone), \<open>sent\<close> the data
  handed to \<^verbatim>\<open>send\<close> so far. A write raises exactly when the socket is closed or broken;
  a write that succeeds takes the whole string.
\<close>

record sock =
  closed :: bool
  broken :: bool
  sent :: "string list"

definition sock_send :: "sock \<Rightarrow> string \<Rightarrow> exn + sock" where
  "sock_send s d = (if closed s \<or> broken s then Inl OSError else Inr (s\<lparr>sent := sent s @ [d]\<rparr>))"

definition sock_close :: "sock \<Rightarrow> sock" where
  "sock_close s = s\<lparr>closed := True\<rparr>"

definition fresh_sock :: sock where
  "fresh_sock = \<lparr>closed = False, broken = False, sent = []\<rparr>"

section \<open>The client (tws\_client.py)\<close>

text \<open>What the client prints, one constructor per \<^verbatim>\<open>print\<close> of the source.\<close>

datatype printed =
    ConnectedTo
  | ConnectionFailed
  | DisconnectSendError
  | DisconnectedFromEmulator
  | AlreadyDisconnected
  | RequestedRealTimeBars
  | SendError
  | SocketClosedByEmulator
  | ReceivedEndOfData
  | ClientJSONError
  | ClientListenError
  | ListenThreadExiting
  | OrderStatusCallbackSet

record bar =
  bar_time :: timestamp
  bar_open :: json
  bar_high :: json
  bar_low :: json
  bar_close :: json

record trade =
  orderId :: json
  status :: json
  avgFillPrice :: json

text \<open>
  What the outside sees of the client, in order: its prints and its calls of the
  caller's callbacks (\<^verbatim>\<open>bar_callback(bar, True)\<close>, \<^verbatim>\<open>order_status_callback(trade)\<close>).
  The callbacks are the caller's code: a call is recorded and returns.
\<close>

datatype event =
    Print printed
  | BarCallback bar
  | OrderStatusCallback trade

text \<open>
  The fields of \<^verbatim>\<open>TWSClient\<close>. A callback is \<open>None\<close> or the identity of the callable
  the caller registered; \<open>lock\<close> is true while \<^verbatim>\<open>self.lock\<close> is held; \<open>stop_event\<close> is
  true while the event is set; \<open>listen_thread\<close> is true once the thread was started.
  \<open>out\<close> is not a field: it is the trace of events the client has produced.
\<close>

type_synonym callback = nat

record client =
  host :: string
  port :: nat
  socket :: "sock option"
  connected :: bool
  running :: bool
  bar_callback :: "callback option"
  order_status_callback :: "callback option"
  lock :: bool
  stop_event :: bool
  listen_thread :: bool
  out :: "event list"

definition init_client :: client where
  "init_client =
     \<lparr>host = ''127.0.0.1'', port = 7498, socket = None, connected = False, running = False,
      bar_callback = None, order_status_callback = None, lock = False, stop_event = False,
      listen_thread = False, out = []\<rparr>"

definition emit :: "event \<Rightarrow> client \<Rightarrow> client" where
  "emit ev c = c\<lparr>out := out c @ [ev]\<rparr>"

text \<open>
  \<^verbatim>\<open>connect\<close>: \<open>ok\<close> says whether \<^verbatim>\<open>socket.connect\<close> succeeds. On failure the socket
  object that was created stays in the field, unconnected. The receive task that
  \<^verbatim>\<open>connect\<close> starts is \<open>listen\<close> below, run on the reads the socket delivers.
\<close>

definition connect :: "bool \<Rightarrow> client \<Rightarrow> client" where
  "connect ok c =
     (if ok then
        emit (Print ConnectedTo)
          (c\<lparr>socket := Some fresh_sock, connected := True, running := True,
             stop_event := False, listen_thread := True\<rparr>)
      else
        (emit (Print ConnectionFailed) (c\<lparr>socket := Some (fresh_sock\<lparr>broken := True\<rparr>)\<rparr>))
          \<lparr>connected := False, running := False\<rparr>)"

text \<open>
  \<^verbatim>\<open>disconnect\<close>. \<^verbatim>\<open>with self.lock\<close> waits while the lock is held. With the lock:
  when connected, the notice is sent inside \<^verbatim>\<open>try\<close> (a failure is printed), then the
  socket is closed, the flags are cleared and the event is set. With no socket object
  \<^verbatim>\<open>self.socket.send\<close> raises inside the \<^verbatim>\<open>try\<close> and \<^verbatim>\<open>self.socket.close()\<close>
  raises outside it. Leaving the \<^verbatim>\<open>with\<close> block releases the lock.
\<close>

definition disconnect :: "lib \<Rightarrow> client \<Rightarrow> unit outcome \<times> client" where
  "disconnect L c0 =
     (if lock c0 then (BlocksOnLock, c0)
      else
        let c = c0\<lparr>lock := True\<rparr> in
        if connected c then
          (case socket c of
             None \<Rightarrow> (Raises AttributeError, (emit (Print DisconnectSendError) c)\<lparr>lock := False\<rparr>)
           | Some s \<Rightarrow>
               let c1 = (case sock_send s (dumps L (JObj [(''type'', JStr ''disconnect'')]) @ [NL]) of
                           Inl e \<Rightarrow> emit (Print DisconnectSendError) c
                         | Inr s' \<Rightarrow> c\<lparr>socket := Some s'\<rparr>);
                   c2 = c1\<lparr>socket := map_option sock_close (socket c1)\<rparr>;
                   c3 = c2\<lparr>connected := False, running := False, stop_event := True\<rparr>
               in (Returns (), (emit (Print DisconnectedFromEmulator) c3)\<lparr>lock := False\<rparr>))
        else (Returns (), (emit (Print AlreadyDisconnected) c)\<lparr>lock := False\<rparr>))"

text \<open>
  \<^verbatim>\<open>send\<close>. The write and the \<^verbatim>\<open>except\<close> handler both run inside \<^verbatim>\<open>with self.lock\<close>:
  the handler calls \<^verbatim>\<open>self.disconnect()\<close> while this call still holds the lock.
\<close>

definition send :: "lib \<Rightarrow> json \<Rightarrow> client \<Rightarrow> unit outcome \<times> client" where
  "send L msg c0 =
     (if lock c0 then (BlocksOnLock, c0)
      else
        let c = c0\<lparr>lock := True\<rparr> in
        if connected c then
          (case (case socket c of
                   None \<Rightarrow> Inl AttributeError
                 | Some s \<Rightarrow> sock_send s (dumps L msg @ [NL])) of
             Inr s' \<Rightarrow> (Returns (), c\<lparr>socket := Some s', lock := False\<rparr>)
           | Inl e \<Rightarrow>
               (case disconnect L (emit (Print SendError) c) of
                  (Returns u, c') \<Rightarrow> (Returns (), c'\<lparr>lock := False\<rparr>)
                | (Raises e', c') \<Rightarrow> (Raises e', c'\<lparr>lock := False\<rparr>)
                | (BlocksOnLock, c') \<Rightarrow> (BlocksOnLock, c')
                | (BlocksOnRecv, c') \<Rightarrow> (BlocksOnRecv, c')))
        else (Returns (), c\<lparr>lock := False\<rparr>))"

text \<open>\<^verbatim>\<open>req_real_time_bars\<close> and \<^verbatim>\<open>set_order_status_callback\<close>.\<close>

definition req_real_time_bars :: "lib \<Rightarrow> json \<Rightarrow> callback \<Rightarrow> client \<Rightarrow> unit outcome \<times> client" where
  "req_real_time_bars L bar_size cb c =
     (case send L (JObj [(''type'', JStr ''reqRealTimeBars''), (''barSize'', bar_size)])
             (c\<lparr>bar_callback := Some cb\<rparr>) of
        (Returns u, c') \<Rightarrow> (Returns (), emit (Print RequestedRealTimeBars) c')
      | (r, c') \<Rightarrow> (r, c'))"

definition set_order_status_callback :: "callback \<Rightarrow> client \<Rightarrow> client" where
  "set_order_status_callback cb c =
     emit (Print OrderStatusCallbackSet) (c\<lparr>order_status_callback := Some cb\<rparr>)"

text \<open>
  \<^verbatim>\<open>place_order\<close>. The caller's order object has the attributes \<^verbatim>\<open>action\<close> and
  \<^verbatim>\<open>totalQuantity\<close>; \<open>object_id\<close> is what \<^verbatim>\<open>id(order)\<close> returns for it. After the
  send, a trade with status \<^verbatim>\<open>'Filled'\<close> and price \<^verbatim>\<open>0.0\<close> is built and handed to the
  order-status callback when one is registered; then the identifier is returned. The
  contract argument is not used.
\<close>

record order =
  action :: string
  totalQuantity :: int
  object_id :: int

definition place_order :: "lib \<Rightarrow> order \<Rightarrow> client \<Rightarrow> int outcome \<times> client" where
  "place_order L ord c =
     (let msg = JObj [(''type'', JStr ''placeOrder''),
                      (''order'', JObj [(''action'', JStr (action ord)),
                                        (''quantity'', JInt (totalQuantity ord))])];
          order_id = object_id ord
      in case send L msg c of
           (Returns u, c1) \<Rightarrow>
             let tr = \<lparr>orderId = JInt order_id, status = JStr ''Filled'', avgFillPrice = JFloat 0\<rparr>;
                 c2 = (if order_status_callback c1 \<noteq> None then emit (OrderStatusCallback tr) c1 else c1)
             in (Returns order_id, c2)
         | (Raises e, c1) \<Rightarrow> (Raises e, c1)
         | (BlocksOnLock, c1) \<Rightarrow> (BlocksOnLock, c1)
         | (BlocksOnRecv, c1) \<Rightarrow> (BlocksOnRecv, c1))"

subsection \<open>The receive task\<close>

text \<open>
  \<^verbatim>\<open>str.isspace\<close> on the characters below 256, and \<^verbatim>\<open>line.strip()\<close> being empty.
\<close>

definition isspace :: "char \<Rightarrow> bool" where
  "isspace ch =
     (let n = (of_char ch :: nat)
      in (9 \<le> n \<and> n \<le> 13) \<or> (28 \<le> n \<and> n \<le> 32) \<or> n = 133 \<or> n = 160)"

definition blank :: "string \<Rightarrow> bool" where
  "blank line = list_all isspace line"

text \<open>
  The sequencing of calls that may raise: the second runs on the value of the first.
\<close>

definition and_then :: "exn + 'a \<Rightarrow> ('a \<Rightarrow> exn + 'b) \<Rightarrow> exn + 'b" where
  "and_then r f = (case r of Inl e \<Rightarrow> Inl e | Inr v \<Rightarrow> f v)"

text \<open>
  The \<^verbatim>\<open>Bar\<close> and \<^verbatim>\<open>Trade\<close> objects the receive task builds from a message; the fields
  are read in the order the source writes them.
\<close>

definition make_bar :: "lib \<Rightarrow> json \<Rightarrow> exn + bar" where
  "make_bar L msg =
     and_then (subscript msg ''time'') (\<lambda>t.
     and_then (case to_datetime L t of None \<Rightarrow> Inl ValueError | Some ts \<Rightarrow> Inr ts) (\<lambda>ts.
     and_then (subscript msg ''open'') (\<lambda>op.
     and_then (subscript msg ''high'') (\<lambda>h.
     and_then (subscript msg ''low'') (\<lambda>l.
     and_then (subscript msg ''close'') (\<lambda>cl.
       Inr \<lparr>bar_time = ts, bar_open = op, bar_high = h, bar_low = l, bar_close = cl\<rparr>))))))"

definition make_trade :: "json \<Rightarrow> exn + trade" where
  "make_trade msg =
     and_then (subscript msg ''orderId'') (\<lambda>i.
     and_then (subscript msg ''status'') (\<lambda>s.
     and_then (subscript msg ''avgFillPrice'') (\<lambda>p.
       Inr \<lparr>orderId = i, status = s, avgFillPrice = p\<rparr>)))"

text \<open>
  The dispatch of one decoded message (the \<^verbatim>\<open>if\<close>/\<^verbatim>\<open>elif\<close> chain of \<^verbatim>\<open>listen\<close>).
  \<open>Returns True\<close> is the \<^verbatim>\<open>break\<close> after \<^verbatim>\<open>endOfData\<close>, \<open>Returns False\<close> goes on with
  the next frame.
\<close>

definition dispatch :: "lib \<Rightarrow> json \<Rightarrow> client \<Rightarrow> bool outcome \<times> client" where
  "dispatch L msg c =
     (case subscript msg ''type'' of
        Inl e \<Rightarrow> (Raises e, c)
      | Inr t \<Rightarrow>
          if t = JStr ''barUpdate'' \<and> bar_callback c \<noteq> None then
            (case make_bar L msg of
               Inl e \<Rightarrow> (Raises e, c)
             | Inr b \<Rightarrow> (Returns False, emit (BarCallback b) c))
          else if t = JStr ''orderStatus'' \<and> order_status_callback c \<noteq> None then
            (case make_trade msg of
               Inl e \<Rightarrow> (Raises e, c)
             | Inr tr \<Rightarrow> (Returns False, emit (OrderStatusCallback tr) c))
          else if t = JStr ''endOfData'' then
            (case disconnect L (emit (Print ReceivedEndOfData) c) of
               (Returns u, c') \<Rightarrow> (Returns True, c')
             | (Raises e, c') \<Rightarrow> (Raises e, c')
             | (BlocksOnLock, c') \<Rightarrow> (BlocksOnLock, c')
             | (BlocksOnRecv, c') \<Rightarrow> (BlocksOnRecv, c'))
          else (Returns False, c))"

text \<open>
  The inner loop \<^verbatim>\<open>while '\\n' in buffer\<close>. It ends in one of five ways: no newline is
  left (\<open>Drained\<close>), the \<^verbatim>\<open>break\<close> after \<^verbatim>\<open>endOfData\<close> (\<open>Broke\<close>), a frame that does
  not parse (\<open>JSONDecodeError\<close>), another exception (\<open>Failed\<close>), or a call that never
  returns (\<open>Stuck\<close>). The buffer was assigned before the frame was decoded, so in every
  case it holds what follows the last frame taken.
\<close>

datatype loop_exit = Drained | Broke | JSONDecodeError | Failed exn | Stuck

function frames_loop :: "lib \<Rightarrow> string \<Rightarrow> client \<Rightarrow> loop_exit \<times> string \<times> client" where
  "frames_loop L buffer c =
     (if NL \<in> set buffer then
        (let line = takeWhile (\<lambda>ch. ch \<noteq> NL) buffer;
             buffer' = tl (dropWhile (\<lambda>ch. ch \<noteq> NL) buffer)
         in if \<not> blank line then
              (case loads L line of
                 None \<Rightarrow> (JSONDecodeError, buffer', c)
               | Some msg \<Rightarrow>
                   (case dispatch L msg c of
                      (Returns brk, c') \<Rightarrow>
                        if brk then (Broke, buffer', c') else frames_loop L buffer' c'
                    | (Raises e, c') \<Rightarrow> (Failed e, buffer', c')
                    | (BlocksOnLock, c') \<Rightarrow> (Stuck, buffer', c')
                    | (BlocksOnRecv, c') \<Rightarrow> (Stuck, buffer', c')))
            else frames_loop L buffer' c)
      else (Drained, buffer, c))"
  by pat_completeness auto
termination
proof (relation "measure (\<lambda>(L, buffer, c). length buffer)")
  show "wf (measure (\<lambda>(L, buffer, c). length buffer))"
    by simp
next
  fix L :: lib and buffer :: string and c c' :: client and line buffer' :: string
  assume "NL \<in> set buffer" and "buffer' = tl (dropWhile (\<lambda>ch. ch \<noteq> NL) buffer)"
  then have "length buffer' < length buffer"
    by (induction buffer arbitrary: buffer') (auto simp: less_Suc_eq_le length_dropWhile_le)
  then show "((L, buffer', c'), (L, buffer, c)) \<in> measure (\<lambda>(L, buffer, c). length buffer)"
    by simp
  then show "((L, buffer', c), (L, buffer, c)) \<in> measure (\<lambda>(L, buffer, c). length buffer)"
    by simp
qed

text \<open>
  What one \<^verbatim>\<open>self.socket.recv(4096).decode('utf-8')\<close> gives: text (empty when the peer
  has closed), or an exception (a socket error, or bytes that do not decode). Without a
  socket object, or on a socket this end has closed, the call raises whatever the peer
  did.
\<close>

datatype recv = Data string | RecvFails

definition recv_on :: "sock option \<Rightarrow> recv \<Rightarrow> recv" where
  "recv_on so r = (case so of None \<Rightarrow> RecvFails | Some s \<Rightarrow> if closed s then RecvFails else r)"

text \<open>
  The handler \<^verbatim>\<open>except Exception\<close> of \<^verbatim>\<open>listen\<close>: print, disconnect, \<^verbatim>\<open>break\<close>, and
  the print after the loop. An exception raised by \<^verbatim>\<open>disconnect\<close> here leaves \<^verbatim>\<open>listen\<close>.
\<close>

definition on_listen_error :: "lib \<Rightarrow> client \<Rightarrow> unit outcome \<times> client" where
  "on_listen_error L c =
     (case disconnect L (emit (Print ClientListenError) c) of
        (Returns u, c') \<Rightarrow> (Returns (), emit (Print ListenThreadExiting) c')
      | (r, c') \<Rightarrow> (r, c'))"

text \<open>
  \<^verbatim>\<open>listen\<close>: the outer loop \<^verbatim>\<open>while self.running\<close>, over the results of the successive
  \<^verbatim>\<open>recv\<close> calls. When the results are used up and the loop is still running, the task
  waits in \<^verbatim>\<open>recv\<close>. The result carries the local \<^verbatim>\<open>buffer\<close>.
\<close>

fun listen_loop :: "lib \<Rightarrow> recv list \<Rightarrow> string \<Rightarrow> client \<Rightarrow> unit outcome \<times> string \<times> client" where
  "listen_loop L [] buffer c =
     (if \<not> running c then (Returns (), buffer, emit (Print ListenThreadExiting) c)
      else case recv_on (socket c) (Data []) of
             RecvFails \<Rightarrow> (case on_listen_error L c of (r, c') \<Rightarrow> (r, buffer, c'))
           | Data d \<Rightarrow> (BlocksOnRecv, buffer, c))"
| "listen_loop L (r # rs) buffer c =
     (if \<not> running c then (Returns (), buffer, emit (Print ListenThreadExiting) c)
      else case recv_on (socket c) r of
             RecvFails \<Rightarrow> (case on_listen_error L c of (r, c') \<Rightarrow> (r, buffer, c'))
           | Data d \<Rightarrow>
               if d = [] then
                 (case disconnect L (emit (Print SocketClosedByEmulator) c) of
                    (Returns u, c') \<Rightarrow> (Returns (), buffer, emit (Print ListenThreadExiting) c')
                  | (Raises e, c') \<Rightarrow> (case on_listen_error L c' of (r, c'') \<Rightarrow> (r, buffer, c''))
                  | (BlocksOnLock, c') \<Rightarrow> (BlocksOnLock, buffer, c')
                  | (BlocksOnRecv, c') \<Rightarrow> (BlocksOnRecv, buffer, c'))
               else
                 (case frames_loop L (buffer @ d) c of
                    (Drained, buffer', c') \<Rightarrow> listen_loop L rs buffer' c'
                  | (Broke, buffer', c') \<Rightarrow> listen_loop L rs buffer' c'
                  | (JSONDecodeError, buffer', c') \<Rightarrow>
                      listen_loop L rs buffer' (emit (Print ClientJSONError) c')
                  | (Failed e, buffer', c') \<Rightarrow>
                      (case on_listen_error L c' of (r, c'') \<Rightarrow> (r, buffer', c''))
                  | (Stuck, buffer', c') \<Rightarrow> (BlocksOnLock, buffer', c')))"

definition listen :: "lib \<Rightarrow> recv list \<Rightarrow> client \<Rightarrow> unit outcome \<times> client" where
  "listen L reads c = (case listen_loop L reads [] c of (r, buffer, c') \<Rightarrow> (r, c'))"

section \<open>The emulator (tws\_emulator.py)\<close>

text \<open>
  A row of the data frame: the \<^verbatim>\<open>date\<close> column (a timestamp, kept as the text
  \<^verbatim>\<open>isoformat()\<close> gives) and the four price columns.
\<close>

record row =
  row_date :: timestamp
  row_open :: real
  row_high :: real
  row_low :: real
  row_close :: real

record order_record =
  rec_action :: json
  rec_quantity :: json
  rec_fill_price :: real

datatype srv_printed =
    ErrorHandlingClient
  | InvalidMessage string
  | StreamingBar timestamp
  | FinishedStreamingBars
  | ErrorSendingMessage
  | EmulatorStopped

text \<open>
  The fields of \<^verbatim>\<open>TWSEmulator\<close> the handlers use. A client socket is named by a number;
  \<open>socks\<close> gives the state of each, \<open>clients\<close> is the list \<^verbatim>\<open>self.clients\<close>. \<open>data_df\<close> is
  \<open>None\<close> until \<^verbatim>\<open>load_data\<close> has run. \<open>streams\<close> lists the sockets for which a
  \<^verbatim>\<open>stream_bars\<close> thread was started, \<open>printed\<close> what the emulator has printed.
\<close>

record emulator =
  data_df :: "row list option"
  clients :: "nat list"
  orders :: "int \<rightharpoonup> order_record"
  order_id :: int
  em_running :: bool
  socks :: "nat \<Rightarrow> sock"
  streams :: "nat list"
  printed :: "srv_printed list"

definition init_emulator :: emulator where
  "init_emulator =
     \<lparr>data_df = None, clients = [], orders = Map.empty, order_id = 0, em_running = False,
      socks = (\<lambda>sid. fresh_sock), streams = [], printed = []\<rparr>"

definition say :: "srv_printed \<Rightarrow> emulator \<Rightarrow> emulator" where
  "say p e = e\<lparr>printed := printed e @ [p]\<rparr>"

text \<open>\<^verbatim>\<open>send_message\<close>: the write is inside \<^verbatim>\<open>try\<close>; a failure is printed.\<close>

definition send_message :: "lib \<Rightarrow> nat \<Rightarrow> json \<Rightarrow> emulator \<Rightarrow> emulator" where
  "send_message L sid msg e =
     (case sock_send (socks e sid) (dumps L msg @ [NL]) of
        Inl x \<Rightarrow> say ErrorSendingMessage e
      | Inr s' \<Rightarrow> e\<lparr>socks := (socks e)(sid := s')\<rparr>)"

text \<open>\<^verbatim>\<open>df[col].iloc[i]\<close>: an index below zero counts from the end.\<close>

definition iloc :: "'a list \<Rightarrow> int \<Rightarrow> exn + 'a" where
  "iloc xs i =
     (if 0 \<le> i \<and> i < int (length xs) then Inr (xs ! nat i)
      else if i < 0 \<and> - int (length xs) \<le> i then Inr (xs ! nat (int (length xs) + i))
      else Inl IndexError)"

text \<open>
  \<^verbatim>\<open>handle_order\<close>. The counter is incremented first; every later step may raise and
  leaves the counter incremented. The \<^verbatim>\<open>close\<close> column holds floats, so
  \<^verbatim>\<open>float(fill_price)\<close> is the value itself.
\<close>

definition handle_order :: "lib \<Rightarrow> nat \<Rightarrow> json \<Rightarrow> emulator \<Rightarrow> unit outcome \<times> emulator" where
  "handle_order L sid msg e0 =
     (let e = e0\<lparr>order_id := order_id e0 + 1\<rparr> in
      case get msg ''order'' of
        Inl x \<Rightarrow> (Raises x, e)
      | Inr ord \<Rightarrow>
          (case get ord ''action'' of
             Inl x \<Rightarrow> (Raises x, e)
           | Inr act \<Rightarrow>
               (case get ord ''quantity'' of
                  Inl x \<Rightarrow> (Raises x, e)
                | Inr quantity \<Rightarrow>
                    (case data_df e of
                       None \<Rightarrow> (Raises TypeError, e)
                     | Some df \<Rightarrow>
                         (case iloc (map row_close df) (min (order_id e) (int (length df) - 1)) of
                            Inl x \<Rightarrow> (Raises x, e)
                          | Inr fill_price \<Rightarrow>
                              let st = JObj [(''type'', JStr ''orderStatus''),
                                             (''orderId'', JInt (order_id e)),
                                             (''status'', JStr ''Filled''),
                                             (''avgFillPrice'', JFloat fill_price)];
                                  e' = e\<lparr>orders := (orders e)(order_id e \<mapsto>
                                          \<lparr>rec_action = act, rec_quantity = quantity,
                                           rec_fill_price = fill_price\<rparr>)\<rparr>
                              in (Returns (), send_message L sid st e'))))))"

text \<open>\<^verbatim>\<open>self.clients.remove(client_socket)\<close> and \<^verbatim>\<open>client_socket.close()\<close>.\<close>

definition drop_client :: "nat \<Rightarrow> emulator \<Rightarrow> unit outcome \<times> emulator" where
  "drop_client sid e =
     (if sid \<in> set (clients e) then
        (Returns (), e\<lparr>clients := remove1 sid (clients e),
                       socks := (socks e)(sid := sock_close (socks e sid))\<rparr>)
      else (Raises ValueError, e))"

text \<open>
  \<^verbatim>\<open>process_message\<close>: the whole text of one read goes to \<^verbatim>\<open>json.loads\<close>. Only
  \<^verbatim>\<open>JSONDecodeError\<close> is caught here.
\<close>

definition process_message :: "lib \<Rightarrow> nat \<Rightarrow> string \<Rightarrow> emulator \<Rightarrow> unit outcome \<times> emulator" where
  "process_message L sid message e =
     (case loads L message of
        None \<Rightarrow> (Returns (), say (InvalidMessage message) e)
      | Some msg \<Rightarrow>
          (case get msg ''type'' of
             Inl x \<Rightarrow> (Raises x, e)
           | Inr msg_type \<Rightarrow>
               if msg_type = JStr ''reqRealTimeBars'' then
                 (Returns (), e\<lparr>streams := streams e @ [sid]\<rparr>)
               else if msg_type = JStr ''placeOrder'' then handle_order L sid msg e
               else if msg_type = JStr ''disconnect'' then drop_client sid e
               else (Returns (), e)))"

text \<open>
  \<^verbatim>\<open>handle_client\<close>: the loop \<^verbatim>\<open>while self.running\<close> over the results of the successive
  \<^verbatim>\<open>recv\<close> calls on one client socket. Any exception is printed and ends the handler.
\<close>

fun handle_client :: "lib \<Rightarrow> nat \<Rightarrow> recv list \<Rightarrow> emulator \<Rightarrow> unit outcome \<times> emulator" where
  "handle_client L sid [] e =
     (if \<not> em_running e then (Returns (), e)
      else case recv_on (Some (socks e sid)) (Data []) of
             RecvFails \<Rightarrow> (Returns (), say ErrorHandlingClient e)
           | Data d \<Rightarrow> (BlocksOnRecv, e))"
| "handle_client L sid (r # rs) e =
     (if \<not> em_running e then (Returns (), e)
      else case recv_on (Some (socks e sid)) r of
             RecvFails \<Rightarrow> (Returns (), say ErrorHandlingClient e)
           | Data d \<Rightarrow>
               if d = [] then
                 (case drop_client sid e of
                    (Raises x, e') \<Rightarrow> (Returns (), say ErrorHandlingClient e')
                  | (r', e') \<Rightarrow> (Returns (), e'))
               else
                 (case process_message L sid d e of
                    (Returns u, e') \<Rightarrow> handle_client L sid rs e'
                  | (Raises x, e') \<Rightarrow> (Returns (), say ErrorHandlingClient e')
                  | (r', e') \<Rightarrow> (r', e')))"

text \<open>
  \<^verbatim>\<open>stream_bars\<close>. \<^verbatim>\<open>aggregate_to_seconds\<close> resamples with pandas and is a parameter
  here: \<open>aggregate\<close> gives the frame to stream or the exception raised. The flag
  \<^verbatim>\<open>self.running\<close> is shared with the thread that calls \<^verbatim>\<open>stop\<close>: \<open>running_at i\<close> is the
  value the \<open>i\<close>-th iteration reads. \<^verbatim>\<open>break\<close> leaves the loop only: the statements
  after the loop run in every case.
\<close>

definition bar_message :: "row \<Rightarrow> json" where
  "bar_message r =
     JObj [(''type'', JStr ''barUpdate''), (''time'', JStr (row_date r)),
           (''open'', JFloat (row_open r)), (''high'', JFloat (row_high r)),
           (''low'', JFloat (row_low r)), (''close'', JFloat (row_close r))]"

fun stream_rows :: "lib \<Rightarrow> (nat \<Rightarrow> bool) \<Rightarrow> nat \<Rightarrow> nat \<Rightarrow> row list \<Rightarrow> emulator \<Rightarrow> emulator" where
  "stream_rows L running_at sid i [] e = e"
| "stream_rows L running_at sid i (r # rs) e =
     (if \<not> running_at i then e
      else stream_rows L running_at sid (Suc i) rs
             (send_message L sid (bar_message r) (say (StreamingBar (row_date r)) e)))"

definition stream_bars ::
  "lib \<Rightarrow> (row list \<Rightarrow> exn + row list) \<Rightarrow> (nat \<Rightarrow> bool) \<Rightarrow> nat \<Rightarrow> emulator \<Rightarrow> unit outcome \<times> emulator" where
  "stream_bars L aggregate running_at sid e =
     (case data_df e of
        None \<Rightarrow> (Raises TypeError, e)
      | Some data \<Rightarrow>
          (case aggregate data of
             Inl x \<Rightarrow> (Raises x, e)
           | Inr df \<Rightarrow>
               (Returns (),
                say FinishedStreamingBars
                  (send_message L sid (JObj [(''type'', JStr ''endOfData'')])
                     (stream_rows L running_at sid 0 df e)))))"

text \<open>\<^verbatim>\<open>stop\<close>: clears the flag and closes every socket of \<^verbatim>\<open>self.clients\<close>.\<close>

definition stop :: "emulator \<Rightarrow> emulator" where
  "stop e =
     say EmulatorStopped
       (e\<lparr>em_running := False,
          socks := (\<lambda>sid. if sid \<in> set (clients e) then sock_close (socks e sid) else socks e sid)\<rparr>)"

section \<open>A decoder and an encoder for the protocol's JSON\<close>

text \<open>
  The theorems about the loops hold for every \<open>lib\<close>. Where a theorem runs the code on
  a concrete text it uses the codec below. \<open>json_loads\<close> reads the JSON the protocol's
  messages are written in: objects, arrays, strings without escapes, integers and decimal
  fractions without exponent, and the three literals, with white space between tokens;
  text after the value is an error (\<^verbatim>\<open>Extra data\<close>), as in \<^verbatim>\<open>json.loads\<close>. It is run on
  such texts only. \<open>json_dumps\<close> writes values as \<^verbatim>\<open>json.dumps\<close> does with its default
  separators, a float in positional notation.
\<close>

datatype token = TLBrace | TRBrace | TLBrack | TRBrack | TColon | TComma | TValue json

definition isdigit :: "char \<Rightarrow> bool" where
  "isdigit ch = (let n = (of_char ch :: nat) in 48 \<le> n \<and> n \<le> 57)"

definition digits_value :: "string \<Rightarrow> nat" where
  "digits_value ds = foldl (\<lambda>a d. 10 * a + (of_char d - 48)) 0 ds"

definition lex_number :: "string \<Rightarrow> (json \<times> string) option" where
  "lex_number cs =
     (let neg = (cs \<noteq> [] \<and> hd cs = CHR ''-'');
          cs1 = (if neg then tl cs else cs);
          ds = takeWhile isdigit cs1;
          r1 = dropWhile isdigit cs1;
          sgn = (if neg then - 1 else 1 :: int)
      in if ds = [] \<or> (length ds > 1 \<and> hd ds = CHR ''0'') then None
         else if r1 \<noteq> [] \<and> hd r1 = CHR ''.'' then
           (let fs = takeWhile isdigit (tl r1); r2 = dropWhile isdigit (tl r1)
            in if fs = [] \<or> (r2 \<noteq> [] \<and> (hd r2 = CHR ''e'' \<or> hd r2 = CHR ''E'')) then None
               else Some (JFloat (of_int sgn * (of_nat (digits_value ds)
                                   + of_nat (digits_value fs) / 10 ^ length fs)), r2))
         else if r1 \<noteq> [] \<and> (hd r1 = CHR ''e'' \<or> hd r1 = CHR ''E'') then None
         else Some (JInt (sgn * int (digits_value ds)), r1))"

fun strip_prefix :: "string \<Rightarrow> string \<Rightarrow> string option" where
  "strip_prefix [] cs = Some cs"
| "strip_prefix (p # ps) [] = None"
| "strip_prefix (p # ps) (c # cs) = (if p = c then strip_prefix ps cs else None)"

fun lex :: "nat \<Rightarrow> string \<Rightarrow> token list option" where
  "lex n [] = Some []"
| "lex 0 (c # cs) = None"
| "lex (Suc n) (c # cs) =
     (if c = CHR '' '' \<or> c = CHR 0x09 \<or> c = CHR 0x0A \<or> c = CHR 0x0D then lex n cs
      else if c = CHR ''{'' then map_option ((#) TLBrace) (lex n cs)
      else if c = CHR ''}'' then map_option ((#) TRBrace) (lex n cs)
      else if c = CHR ''['' then map_option ((#) TLBrack) (lex n cs)
      else if c = CHR '']'' then map_option ((#) TRBrack) (lex n cs)
      else if c = CHR '':'' then map_option ((#) TColon) (lex n cs)
      else if c = CHR '','' then map_option ((#) TComma) (lex n cs)
      else if c = CHR 0x22 then
        (let body = takeWhile (\<lambda>x. x \<noteq> CHR 0x22) cs; rest = dropWhile (\<lambda>x. x \<noteq> CHR 0x22) cs
         in if rest = [] \<or> list_ex (\<lambda>x. x = CHR 0x5C \<or> (of_char x :: nat) < 32) body then None
            else map_option ((#) (TValue (JStr body))) (lex n (tl rest)))
      else if c = CHR ''-'' \<or> isdigit c then
        (case lex_number (c # cs) of
           None \<Rightarrow> None
         | Some (v, rest) \<Rightarrow> map_option ((#) (TValue v)) (lex n rest))
      else
        (case strip_prefix ''true'' (c # cs) of
           Some rest \<Rightarrow> map_option ((#) (TValue (JBool True))) (lex n rest)
         | None \<Rightarrow>
        (case strip_prefix ''false'' (c # cs) of
           Some rest \<Rightarrow> map_option ((#) (TValue (JBool False))) (lex n rest)
         | None \<Rightarrow>
        (case strip_prefix ''null'' (c # cs) of
           Some rest \<Rightarrow> map_option ((#) (TValue JNull)) (lex n rest)
         | None \<Rightarrow> None))))"

fun parse_value :: "nat \<Rightarrow> token list \<Rightarrow> (json \<times> token list) option"
  and parse_members :: "nat \<Rightarrow> token list \<Rightarrow> ((string \<times> json) list \<times> token list) option"
  and parse_elements :: "nat \<Rightarrow> token list \<Rightarrow> (json list \<times> token list) option" where
  "parse_value 0 ts = None"
| "parse_value (Suc n) ts =
     (case ts of
        TValue v # r \<Rightarrow> Some (v, r)
      | TLBrace # TRBrace # r \<Rightarrow> Some (JObj [], r)
      | TLBrace # r \<Rightarrow> map_option (\<lambda>(kvs, r'). (JObj kvs, r')) (parse_members n r)
      | TLBrack # TRBrack # r \<Rightarrow> Some (JArr [], r)
      | TLBrack # r \<Rightarrow> map_option (\<lambda>(vs, r'). (JArr vs, r')) (parse_elements n r)
      | _ \<Rightarrow> None)"
| "parse_members 0 ts = None"
| "parse_members (Suc n) ts =
     (case ts of
        TValue (JStr k) # TColon # r \<Rightarrow>
          (case parse_value n r of
             Some (v, TComma # r') \<Rightarrow> map_option (\<lambda>(kvs, r''). ((k, v) # kvs, r'')) (parse_members n r')
           | Some (v, TRBrace # r') \<Rightarrow> Some ([(k, v)], r')
           | _ \<Rightarrow> None)
      | _ \<Rightarrow> None)"
| "parse_elements 0 ts = None"
| "parse_elements (Suc n) ts =
     (case parse_value n ts of
        Some (v, TComma # r') \<Rightarrow> map_option (\<lambda>(vs, r''). (v # vs, r'')) (parse_elements n r')
      | Some (v, TRBrack # r') \<Rightarrow> Some ([v], r')
      | _ \<Rightarrow> None)"

definition json_loads :: "string \<Rightarrow> json option" where
  "json_loads s =
     (case lex (length s) s of
        None \<Rightarrow> None
      | Some ts \<Rightarrow> (case parse_value (length ts) ts of Some (v, []) \<Rightarrow> Some v | _ \<Rightarrow> None))"


function show_nat :: "nat \<Rightarrow> string" where
  "show_nat n = (if n < 10 then [''0123456789'' ! n] else show_nat (n div 10) @ [''0123456789'' ! (n mod 10)])"
  by pat_completeness auto
termination
  by (relation "measure id") auto

declare show_nat.simps [simp del]

definition show_int :: "int \<Rightarrow> string" where
  "show_int i = (if i < 0 then ''-'' @ show_nat (nat (- i)) else show_nat (nat i))"

function frac_digits :: "nat \<Rightarrow> real \<Rightarrow> string" where
  "frac_digits k f =
     (if k = 0 then []
      else let d = nat \<lfloor>10 * f\<rfloor>; f' = 10 * f - real d
           in (''0123456789'' ! d) # (if f' = 0 then [] else frac_digits (k - 1) f'))"
  by pat_completeness auto
termination
  by (relation "measure fst") auto

declare frac_digits.simps [simp del]

definition show_float :: "real \<Rightarrow> string" where
  "show_float r =
     (let a = \<bar>r\<bar>; n = nat \<lfloor>a\<rfloor>
      in (if r < 0 then ''-'' else []) @ show_nat n @ ''.'' @ frac_digits 17 (a - real n))"

definition escape_char :: "char \<Rightarrow> string" where
  "escape_char ch =
     (let n = (of_char ch :: nat)
      in if ch = CHR 0x22 then [CHR 0x5C, CHR 0x22]
         else if ch = CHR 0x5C then [CHR 0x5C, CHR 0x5C]
         else if ch = CHR 0x0A then [CHR 0x5C, CHR ''n'']
         else if ch = CHR 0x0D then [CHR 0x5C, CHR ''r'']
         else if ch = CHR 0x09 then [CHR 0x5C, CHR ''t'']
         else if ch = CHR 0x08 then [CHR 0x5C, CHR ''b'']
         else if ch = CHR 0x0C then [CHR 0x5C, CHR ''f'']
         else if n < 32 \<or> 126 < n then
           [CHR 0x5C, CHR ''u'', CHR ''0'', CHR ''0'', ''0123456789abcdef'' ! (n div 16),
            ''0123456789abcdef'' ! (n mod 16)]
         else [ch])"

definition show_str :: "string \<Rightarrow> string" where
  "show_str s = [CHR 0x22] @ concat (map escape_char s) @ [CHR 0x22]"

fun join :: "string \<Rightarrow> string list \<Rightarrow> string" where
  "join sep [] = []"
| "join sep [x] = x"
| "join sep (x # y # ys) = x @ sep @ join sep (y # ys)"

fun json_dumps :: "json \<Rightarrow> string" where
  "json_dumps JNull = ''null''"
| "json_dumps (JBool b) = (if b then ''true'' else ''false'')"
| "json_dumps (JInt i) = show_int i"
| "json_dumps (JFloat r) = show_float r"
| "json_dumps (JStr s) = show_str s"
| "json_dumps (JArr vs) = ''['' @ join '', '' (map json_dumps vs) @ '']''"
| "json_dumps (JObj kvs) =
     ''{'' @ join '', '' (map (\<lambda>(k, v). show_str k @ '': '' @ json_dumps v) kvs) @ ''}''"

text \<open>
  \<^verbatim>\<open>pd.to_datetime\<close> on the texts \<^verbatim>\<open>isoformat()\<close> produces, a timestamp being kept as
  that text.
\<close>

definition iso_to_datetime :: "json \<Rightarrow> timestamp option" where
  "iso_to_datetime v =
     (case v of
        JStr s \<Rightarrow>
          if s \<noteq> [] \<and> list_all (\<lambda>ch. isdigit ch \<or> ch = CHR ''-'' \<or> ch = CHR '':''
                                      \<or> ch = CHR ''T'' \<or> ch = CHR ''+'' \<or> ch = CHR ''.'') s
          then Some s else None
      | _ \<Rightarrow> None)"

definition pylib :: lib where
  "pylib = \<lparr>dumps = json_dumps, loads = json_loads, to_datetime = iso_to_datetime\<rparr>"

section \<open>Order requests from several connections\<close>

text \<open>
  \<^verbatim>\<open>accept_clients\<close> starts one handler thread per connection, and all of them call
  \<^verbatim>\<open>handle_order\<close> on the one emulator; no lock guards \<^verbatim>\<open>self.order_id\<close>. Another
  thread can run between the statements of a call. The call is cut here after its first
  statement: \<open>increment_order_id\<close> is line 119, and \<open>fill_order\<close> is lines 120 to 136,
  which read \<^verbatim>\<open>self.order_id\<close> again for the index (line 126), for the reply's
  \<^verbatim>\<open>orderId\<close> (line 131) and for the key of \<^verbatim>\<open>self.orders\<close> (line 135). Run one after
  the other on the same state, the two parts are \<^verbatim>\<open>handle_order\<close>.
\<close>

definition increment_order_id :: "emulator \<Rightarrow> emulator" where
  "increment_order_id e = e\<lparr>order_id := order_id e + 1\<rparr>"

definition fill_order :: "lib \<Rightarrow> nat \<Rightarrow> json \<Rightarrow> emulator \<Rightarrow> unit outcome \<times> emulator" where
  "fill_order L sid msg e =
     (case get msg ''order'' of
        Inl x \<Rightarrow> (Raises x, e)
      | Inr ord \<Rightarrow>
          (case get ord ''action'' of
             Inl x \<Rightarrow> (Raises x, e)
           | Inr act \<Rightarrow>
               (case get ord ''quantity'' of
                  Inl x \<Rightarrow> (Raises x, e)
                | Inr quantity \<Rightarrow>
                    (case data_df e of
                       None \<Rightarrow> (Raises TypeError, e)
                     | Some df \<Rightarrow>
                         (case iloc (map row_close df) (min (order_id e) (int (length df) - 1)) of
                            Inl x \<Rightarrow> (Raises x, e)
                          | Inr fill_price \<Rightarrow>
                              let st = JObj [(''type'', JStr ''orderStatus''),
                                             (''orderId'', JInt (order_id e)),
                                             (''status'', JStr ''Filled''),
                                             (''avgFillPrice'', JFloat fill_price)];
                                  e' = e\<lparr>orders := (orders e)(order_id e \<mapsto>
                                          \<lparr>rec_action = act, rec_quantity = quantity,
                                           rec_fill_price = fill_price\<rparr>)\<rparr>
                              in (Returns (), send_message L sid st e'))))))"

text \<open>
  The reply of lines 129 to 134 for an identifier and a price, and the close that line
  126 reads for an order count on a non-empty frame.
\<close>

definition order_status :: "int \<Rightarrow> real \<Rightarrow> json" where
  "order_status n p =
     JObj [(''type'', JStr ''orderStatus''), (''orderId'', JInt n),
           (''status'', JStr ''Filled''), (''avgFillPrice'', JFloat p)]"

definition fill_price_at :: "row list \<Rightarrow> int \<Rightarrow> real" where
  "fill_price_at df n = row_close (df ! nat (min n (int (length df) - 1)))"

text \<open>
  A read that holds one order request: text that decodes to an object of type
  \<^verbatim>\<open>placeOrder\<close> with an \<^verbatim>\<open>order\<close> object.
\<close>

definition order_read :: "lib \<Rightarrow> string \<Rightarrow> bool" where
  "order_read L d =
     (d \<noteq> [] \<and>
      (case loads L d of
         Some (JObj kvs) \<Rightarrow>
           dict_lookup kvs ''type'' = Some (JStr ''placeOrder'')
           \<and> (case dict_lookup kvs ''order'' of Some (JObj okvs) \<Rightarrow> True | _ \<Rightarrow> False)
       | _ \<Rightarrow> False))"

section \<open>Example data\<close>

text \<open>
  Three bars five seconds apart with closes 100, 101, 102; an emulator that has loaded
  them and is running, with one client socket; a connected client with both callbacks
  registered; and the texts of some frames.
\<close>

definition example_rows :: "row list" where
  "example_rows =
     [\<lparr>row_date = ''2024-01-02T09:30:00-05:00'', row_open = 100, row_high = 100,
       row_low = 100, row_close = 100\<rparr>,
      \<lparr>row_date = ''2024-01-02T09:30:05-05:00'', row_open = 101, row_high = 101,
       row_low = 101, row_close = 101\<rparr>,
      \<lparr>row_date = ''2024-01-02T09:30:10-05:00'', row_open = 102, row_high = 102,
       row_low = 102, row_close = 102\<rparr>]"

definition example_emulator :: emulator where
  "example_emulator =
     init_emulator\<lparr>data_df := Some example_rows, clients := [0], em_running := True\<rparr>"

definition example_client :: client where
  "example_client =
     (connect True init_client)\<lparr>bar_callback := Some 1, order_status_callback := Some 2\<rparr>"

definition order_request :: json where
  "order_request =
     JObj [(''type'', JStr ''placeOrder''),
           (''order'', JObj [(''action'', JStr ''BUY''), (''quantity'', JInt 10)])]"

definition order_frame :: string where
  \<open>order_frame = ''{"type": "placeOrder", "order": {"action": "BUY", "quantity": 10}}''\<close>

definition bare_order_frame :: string where
  \<open>bare_order_frame = ''{"type": "placeOrder"}''\<close>

definition no_type_frame :: string where
  \<open>no_type_frame = ''{"foo": 1}''\<close>

definition status_frame :: string where
  \<open>status_frame =
     ''{"type": "orderStatus", "orderId": 1, "status": "Filled", "avgFillPrice": 101.0}''\<close>

definition second_status_frame :: string where
  \<open>second_status_frame =
     ''{"type": "orderStatus", "orderId": 2, "status": "Filled", "avgFillPrice": 102.0}''\<close>

definition clamped_status_frame :: string where
  \<open>clamped_status_frame =
     ''{"type": "orderStatus", "orderId": 6, "status": "Filled", "avgFillPrice": 102.0}''\<close>

definition disconnect_frame :: string where
  \<open>disconnect_frame = ''{"type": "disconnect"}''\<close>

definition example_order :: order where
  "example_order = \<lparr>action = ''BUY'', totalQuantity = 10, object_id = 140234\<rparr>"

definition status_reply :: json where
  "status_reply =
     JObj [(''type'', JStr ''orderStatus''), (''orderId'', JInt 1),
           (''status'', JStr ''Filled''), (''avgFillPrice'', JFloat 101)]"

definition heartbeat_frame :: string where
  \<open>heartbeat_frame = ''{"type": "heartbeat"}''\<close>

definition first_bar_frame :: string where
  \<open>first_bar_frame = ''{"type": "barUpdate", "time": "2024-01-02T09:30:00-05:00", "open": 100.0, "high": 100.0, "low": 100.0, "close": 100.0}''\<close>

definition end_frame :: string where
  \<open>end_frame = ''{"type": "endOfData"}''\<close>

definition first_bar :: bar where
  "first_bar = \<lparr>bar_time = ''2024-01-02T09:30:00-05:00'', bar_open = JFloat 100,
                 bar_high = JFloat 100, bar_low = JFloat 100, bar_close = JFloat 100\<rparr>"

text \<open>
  For the stream from the emulator to the client: the \<^verbatim>\<open>Bar\<close> object the client builds
  from the message of a row; the end-of-stream message; what the theorem needs of the
  library on a message that is sent (\<^verbatim>\<open>json.loads\<close> gives back what \<^verbatim>\<open>json.dumps\<close> was
  given, and the text \<^verbatim>\<open>json.dumps\<close> writes has no newline and is not blank); and the
  text of a list of messages on the wire.
\<close>

definition bar_of_row :: "row \<Rightarrow> bar" where
  "bar_of_row r =
     \<lparr>bar_time = row_date r, bar_open = JFloat (row_open r), bar_high = JFloat (row_high r),
      bar_low = JFloat (row_low r), bar_close = JFloat (row_close r)\<rparr>"

definition end_message :: json where
  "end_message = JObj [(''type'', JStr ''endOfData'')]"

definition round_trip :: "lib \<Rightarrow> json \<Rightarrow> bool" where
  "round_trip L m =
     (loads L (dumps L m) = Some m \<and> NL \<notin> set (dumps L m) \<and> \<not> blank (dumps L m))"

definition frames_of :: "lib \<Rightarrow> json list \<Rightarrow> string" where
  "frames_of L ms = concat (map (\<lambda>m. dumps L m @ [NL]) ms)"

text \<open>
  The stream of the three example bars cut into three reads: the first ends inside the
  first frame, the second holds the rest of it, the whole second frame and the start of
  the third, the last holds the rest and the end-of-stream frame.
\<close>

definition example_chunks :: "string list" where
  "example_chunks =
     [take 40 (json_dumps (bar_message (example_rows ! 0))),
      drop 40 (json_dumps (bar_message (example_rows ! 0))) @ [NL]
        @ json_dumps (bar_message (example_rows ! 1)) @ [NL]
        @ take 10 (json_dumps (bar_message (example_rows ! 2))),
      drop 10 (json_dumps (bar_message (example_rows ! 2))) @ [NL]
        @ json_dumps end_message @ [NL]]"

text \<open>A frame that is not JSON.\<close>

definition bad_frame :: string where
  \<open>bad_frame = ''{"type": ''\<close>

declare frames_loop.simps [simp del]

section \<open>Evaluating the codec on the example frames\<close>

lemma loads_order_frame: "json_loads (order_frame @ [NL]) = Some order_request"
  by code_simp

lemma loads_two_order_frames: "json_loads (order_frame @ NL # order_frame @ [NL]) = None"
  by code_simp

lemma loads_bare_order_frame:
  "json_loads (bare_order_frame @ [NL]) = Some (JObj [(''type'', JStr ''placeOrder'')])"
  by code_simp

lemma loads_no_type_frame: "json_loads no_type_frame = Some (JObj [(''foo'', JInt 1)])"
  by code_simp

lemma no_type_frame_line: "NL \<notin> set no_type_frame" "\<not> blank no_type_frame"
  by (simp_all add: no_type_frame_def blank_def isspace_def)

lemma dumps_status_frame:
  "json_dumps (JObj [(''type'', JStr ''orderStatus''), (''orderId'', JInt 1),
                     (''status'', JStr ''Filled''), (''avgFillPrice'', JFloat 101)])
   = status_frame"
  by code_simp

lemma dumps_second_status_frame:
  "json_dumps (JObj [(''type'', JStr ''orderStatus''), (''orderId'', JInt 2),
                     (''status'', JStr ''Filled''), (''avgFillPrice'', JFloat 102)])
   = second_status_frame"
  by code_simp

lemma dumps_clamped_status_frame:
  "json_dumps (JObj [(''type'', JStr ''orderStatus''), (''orderId'', JInt 6),
                     (''status'', JStr ''Filled''), (''avgFillPrice'', JFloat 102)])
   = clamped_status_frame"
  by code_simp

lemma dumps_disconnect_frame:
  "json_dumps (JObj [(''type'', JStr ''disconnect'')]) = disconnect_frame"
  by code_simp

lemma example_emulator_simps:
  "em_running example_emulator" "\<not> closed (socks example_emulator sid)"
  "\<not> broken (socks example_emulator sid)" "data_df example_emulator = Some example_rows"
  "order_id example_emulator = 0"
  by (simp_all add: example_emulator_def init_emulator_def fresh_sock_def)

section \<open>The client's send and disconnect\<close>

lemma disconnect_locked: "lock c \<Longrightarrow> disconnect L c = (BlocksOnLock, c)"
  by (simp add: disconnect_def)

text \<open>
  Claim C10. \<^verbatim>\<open>send\<close> on a client that is not connected, called with the lock free,
  returns without raising and leaves the whole client as it was: every field, the socket
  with what was written to it, and the trace of prints and callbacks.
\<close>

theorem send_not_connected_is_noop:
  "\<not> connected c \<Longrightarrow> \<not> lock c \<Longrightarrow> send L msg c = (Returns (), c)"
  by (simp add: send_def)

theorem send_not_connected_is_noop_witness:
  "\<not> connected init_client \<and> \<not> lock init_client
   \<and> send pylib (JObj [(''type'', JStr ''reqRealTimeBars''), (''barSize'', JInt 5)]) init_client
       = (Returns (), init_client)"
  using send_not_connected_is_noop [of init_client pylib
          "JObj [(''type'', JStr ''reqRealTimeBars''), (''barSize'', JInt 5)]"]
  by (simp add: init_client_def)

text \<open>
  Claim C7. On a connected client (with its socket, the lock free) the first
  \<^verbatim>\<open>disconnect\<close> returns and has one close effect: the notice is written when the
  socket takes it and the failure is printed when it does not, the socket is closed,
  \<open>connected\<close> and \<open>running\<close> are cleared, the stop event is set and the disconnection
  is printed; nothing else changes. The second call returns too and changes nothing
  but the trace, where it reports that the client was already disconnected.
\<close>

theorem disconnect_twice:
  assumes "connected c" and "\<not> lock c" and "socket c = Some s"
  shows "\<exists>c1. disconnect L c = (Returns (), c1)
           \<and> c1 = c\<lparr>socket := Some (sock_close
                        (if closed s \<or> broken s then s
                         else s\<lparr>sent := sent s @ [dumps L (JObj [(''type'', JStr ''disconnect'')]) @ [NL]]\<rparr>)),
                     connected := False, running := False, stop_event := True,
                     out := out c @ (if closed s \<or> broken s then [Print DisconnectSendError] else [])
                              @ [Print DisconnectedFromEmulator]\<rparr>
           \<and> disconnect L c1 = (Returns (), c1\<lparr>out := out c1 @ [Print AlreadyDisconnected]\<rparr>)"
  using assms by (auto simp add: disconnect_def sock_send_def emit_def)

theorem disconnect_twice_witness:
  "connected (connect True init_client) \<and> \<not> lock (connect True init_client)
   \<and> socket (connect True init_client) = Some fresh_sock
   \<and> (\<exists>c1. disconnect pylib (connect True init_client) = (Returns (), c1)
          \<and> \<not> connected c1 \<and> \<not> running c1 \<and> stop_event c1
          \<and> map_option closed (socket c1) = Some True
          \<and> out c1 = [Print ConnectedTo, Print DisconnectedFromEmulator]
          \<and> disconnect pylib c1 = (Returns (), c1\<lparr>out := out c1 @ [Print AlreadyDisconnected]\<rparr>))"
  using disconnect_twice [of "connect True init_client" fresh_sock pylib]
  by (simp add: connect_def init_client_def emit_def fresh_sock_def sock_close_def)

text \<open>
  Claim C8. \<^verbatim>\<open>send\<close> on a connected client whose write fails: the handler calls
  \<^verbatim>\<open>disconnect\<close> inside \<^verbatim>\<open>with self.lock\<close>, and \<^verbatim>\<open>disconnect\<close> waits for the same
  lock. The call never returns; the client is still connected and running, its socket
  is not closed by this call and the lock stays held.
\<close>

theorem send_write_failure_blocks:
  assumes "connected c" and "\<not> lock c" and "socket c = Some s" and "closed s \<or> broken s"
  shows "send L msg c = (BlocksOnLock, (emit (Print SendError) c)\<lparr>lock := True\<rparr>)"
  using assms by (auto simp add: send_def sock_send_def disconnect_def emit_def)

theorem send_write_failure_blocks_witness:
  "send pylib (JObj [(''type'', JStr ''reqRealTimeBars'')])
     ((connect True init_client)\<lparr>socket := Some (fresh_sock\<lparr>broken := True\<rparr>)\<rparr>)
   = (BlocksOnLock,
      (connect True init_client)
        \<lparr>socket := Some (fresh_sock\<lparr>broken := True\<rparr>), lock := True,
         out := [Print ConnectedTo, Print SendError]\<rparr>)"
  using send_write_failure_blocks [of "(connect True init_client)\<lparr>socket := Some (fresh_sock\<lparr>broken := True\<rparr>)\<rparr>"
          "fresh_sock\<lparr>broken := True\<rparr>" pylib "JObj [(''type'', JStr ''reqRealTimeBars'')]"]
  by (simp add: connect_def init_client_def emit_def fresh_sock_def)

section \<open>The frames loop, one frame at a time\<close>

lemma frames_loop_no_newline:
  "NL \<notin> set buffer \<Longrightarrow> frames_loop L buffer c = (Drained, buffer, c)"
  by (simp add: frames_loop.simps)

lemma split_first_line:
  assumes "NL \<notin> set line"
  shows "takeWhile (\<lambda>ch. ch \<noteq> NL) (line @ NL # rest) = line"
    and "tl (dropWhile (\<lambda>ch. ch \<noteq> NL) (line @ NL # rest)) = rest"
  using assms by (induction line) auto

lemma frames_loop_frame:
  assumes "NL \<notin> set line"
  shows "frames_loop L (line @ NL # rest) c =
           (if \<not> blank line then
              (case loads L line of
                 None \<Rightarrow> (JSONDecodeError, rest, c)
               | Some msg \<Rightarrow>
                   (case dispatch L msg c of
                      (Returns brk, c') \<Rightarrow> if brk then (Broke, rest, c') else frames_loop L rest c'
                    | (Raises e, c') \<Rightarrow> (Failed e, rest, c')
                    | (BlocksOnLock, c') \<Rightarrow> (Stuck, rest, c')
                    | (BlocksOnRecv, c') \<Rightarrow> (Stuck, rest, c')))
            else frames_loop L rest c)"
  by (subst frames_loop.simps) (simp add: split_first_line [OF assms] Let_def)

section \<open>Placing an order\<close>

text \<open>
  Claim C9. On a connected client whose socket takes the write, \<^verbatim>\<open>place_order\<close>
  returns \<^verbatim>\<open>id(order)\<close>; it has written exactly one frame, the order request, and has
  read nothing (the call has no input from the server). Before it returns it hands the
  order-status callback, when one is registered, a trade it made up itself (status
  \<^verbatim>\<open>'Filled'\<close>, price \<^verbatim>\<open>0.0\<close>). The server's reply reaches the caller afterwards, in
  the receive task: a frame holding an \<^verbatim>\<open>orderStatus\<close> message is dispatched to the
  order-status callback with the identifier, status and price of the message.
\<close>

theorem place_order_sends_and_returns:
  assumes "connected c" and "running c" and "\<not> lock c"
    and "socket c = Some s" and "\<not> closed s" and "\<not> broken s"
    and "loads L line = Some reply" and "NL \<notin> set line" and "\<not> blank line"
    and "subscript reply ''type'' = Inr (JStr ''orderStatus'')"
    and "subscript reply ''orderId'' = Inr i" and "subscript reply ''status'' = Inr st"
    and "subscript reply ''avgFillPrice'' = Inr p"
    and "c' = snd (place_order L ord c)"
  shows "place_order L ord c =
           (Returns (object_id ord),
            c\<lparr>socket := Some (s\<lparr>sent := sent s @
                   [dumps L (JObj [(''type'', JStr ''placeOrder''),
                                   (''order'', JObj [(''action'', JStr (action ord)),
                                                     (''quantity'', JInt (totalQuantity ord))])])
                    @ [NL]]\<rparr>),
              out := out c @
                (if order_status_callback c \<noteq> None
                 then [OrderStatusCallback \<lparr>orderId = JInt (object_id ord), status = JStr ''Filled'',
                                           avgFillPrice = JFloat 0\<rparr>]
                 else [])\<rparr>)
       \<and> listen_loop L (Data (line @ [NL]) # rs) [] c' =
           listen_loop L rs []
             (if order_status_callback c \<noteq> None
              then emit (OrderStatusCallback \<lparr>orderId = i, status = st, avgFillPrice = p\<rparr>) c'
              else c')"
proof -
  have po: "place_order L ord c =
           (Returns (object_id ord),
            c\<lparr>socket := Some (s\<lparr>sent := sent s @
                   [dumps L (JObj [(''type'', JStr ''placeOrder''),
                                   (''order'', JObj [(''action'', JStr (action ord)),
                                                     (''quantity'', JInt (totalQuantity ord))])])
                    @ [NL]]\<rparr>),
              out := out c @
                (if order_status_callback c \<noteq> None
                 then [OrderStatusCallback \<lparr>orderId = JInt (object_id ord), status = JStr ''Filled'',
                                           avgFillPrice = JFloat 0\<rparr>]
                 else [])\<rparr>)"
    using assms(1-6) by (simp add: place_order_def send_def sock_send_def emit_def Let_def)
  have keep: "order_status_callback c' = order_status_callback c" "running c'"
    "\<exists>s'. socket c' = Some s' \<and> \<not> closed s'"
    using assms(2,4,5,14) by (simp_all add: po)
  have d: "dispatch L reply c' =
           (Returns False,
            if order_status_callback c \<noteq> None
            then emit (OrderStatusCallback \<lparr>orderId = i, status = st, avgFillPrice = p\<rparr>) c'
            else c')"
    using assms(10-13) keep(1) by (simp add: dispatch_def make_trade_def and_then_def)
  have f: "frames_loop L (line @ [NL]) c' =
           (Drained, [],
            if order_status_callback c \<noteq> None
            then emit (OrderStatusCallback \<lparr>orderId = i, status = st, avgFillPrice = p\<rparr>) c'
            else c')"
    using assms(7,9) d frames_loop_frame [OF assms(8), of L "[]" c']
    by (simp add: frames_loop_no_newline)
  have l: "listen_loop L (Data (line @ [NL]) # rs) [] c' =
           listen_loop L rs []
             (if order_status_callback c \<noteq> None
              then emit (OrderStatusCallback \<lparr>orderId = i, status = st, avgFillPrice = p\<rparr>) c'
              else c')"
    using keep(2,3) f by (auto simp add: recv_on_def)
  show ?thesis using po l by (rule conjI)
qed

lemma dumps_order_request: "json_dumps order_request = order_frame"
  by code_simp

lemma loads_status_frame: "json_loads status_frame = Some status_reply"
  by code_simp

lemma status_frame_line: "NL \<notin> set status_frame" "\<not> blank status_frame"
  by (simp_all add: status_frame_def blank_def isspace_def)

theorem place_order_sends_and_returns_witness:
  "place_order pylib example_order example_client =
     (Returns 140234,
      example_client
        \<lparr>socket := Some (fresh_sock\<lparr>sent := [order_frame @ [NL]]\<rparr>),
         out := [Print ConnectedTo,
                 OrderStatusCallback \<lparr>orderId = JInt 140234, status = JStr ''Filled'',
                                      avgFillPrice = JFloat 0\<rparr>]\<rparr>)
   \<and> listen_loop pylib [Data (status_frame @ [NL])] []
         (snd (place_order pylib example_order example_client)) =
     (BlocksOnRecv, [],
      example_client
        \<lparr>socket := Some (fresh_sock\<lparr>sent := [order_frame @ [NL]]\<rparr>),
         out := [Print ConnectedTo,
                 OrderStatusCallback \<lparr>orderId = JInt 140234, status = JStr ''Filled'',
                                      avgFillPrice = JFloat 0\<rparr>,
                 OrderStatusCallback \<lparr>orderId = JInt 1, status = JStr ''Filled'',
                                      avgFillPrice = JFloat 101\<rparr>]\<rparr>)"
proof -
  have h: "connected example_client" "running example_client" "\<not> lock example_client"
    "socket example_client = Some fresh_sock" "\<not> closed fresh_sock" "\<not> broken fresh_sock"
    by (simp_all add: example_client_def connect_def init_client_def emit_def fresh_sock_def)
  have l: "loads pylib status_frame = Some status_reply"
    by (simp add: pylib_def loads_status_frame)
  have r: "subscript status_reply ''type'' = Inr (JStr ''orderStatus'')"
    "subscript status_reply ''orderId'' = Inr (JInt 1)"
    "subscript status_reply ''status'' = Inr (JStr ''Filled'')"
    "subscript status_reply ''avgFillPrice'' = Inr (JFloat 101)"
    by (simp_all add: status_reply_def dict_lookup_def)
  have d: "dumps pylib (JObj [(''type'', JStr ''placeOrder''),
                               (''order'', JObj [(''action'', JStr (action example_order)),
                                                 (''quantity'', JInt (totalQuantity example_order))])])
           = order_frame"
    using dumps_order_request by (simp add: pylib_def example_order_def order_request_def)
  have cb: "order_status_callback example_client \<noteq> None" "object_id example_order = 140234"
    "out example_client = [Print ConnectedTo]" "sent fresh_sock = []"
    by (simp_all add: example_client_def connect_def init_client_def emit_def example_order_def
          fresh_sock_def)
  note t = place_order_sends_and_returns [OF h l status_frame_line r refl, of example_order "[]"]
  have po: "place_order pylib example_order example_client =
     (Returns 140234,
      example_client
        \<lparr>socket := Some (fresh_sock\<lparr>sent := [order_frame @ [NL]]\<rparr>),
         out := [Print ConnectedTo,
                 OrderStatusCallback \<lparr>orderId = JInt 140234, status = JStr ''Filled'',
                                      avgFillPrice = JFloat 0\<rparr>]\<rparr>)"
    using t cb by (simp add: d)
  have li: "listen_loop pylib [Data (status_frame @ [NL])] []
         (snd (place_order pylib example_order example_client)) =
     (BlocksOnRecv, [],
      example_client
        \<lparr>socket := Some (fresh_sock\<lparr>sent := [order_frame @ [NL]]\<rparr>),
         out := [Print ConnectedTo,
                 OrderStatusCallback \<lparr>orderId = JInt 140234, status = JStr ''Filled'',
                                      avgFillPrice = JFloat 0\<rparr>,
                 OrderStatusCallback \<lparr>orderId = JInt 1, status = JStr ''Filled'',
                                      avgFillPrice = JFloat 101\<rparr>]\<rparr>)"
  proof -
    have "listen_loop pylib [Data (status_frame @ [NL])] []
            (snd (place_order pylib example_order example_client)) =
          listen_loop pylib [] []
            (emit (OrderStatusCallback \<lparr>orderId = JInt 1, status = JStr ''Filled'',
                                        avgFillPrice = JFloat 101\<rparr>)
               (snd (place_order pylib example_order example_client)))"
      using conjunct2 [OF t] by (simp only: cb(1) if_True not_False_eq_True simp_thms)
    also have "\<dots> = (BlocksOnRecv, [],
      example_client
        \<lparr>socket := Some (fresh_sock\<lparr>sent := [order_frame @ [NL]]\<rparr>),
         out := [Print ConnectedTo,
                 OrderStatusCallback \<lparr>orderId = JInt 140234, status = JStr ''Filled'',
                                      avgFillPrice = JFloat 0\<rparr>,
                 OrderStatusCallback \<lparr>orderId = JInt 1, status = JStr ''Filled'',
                                      avgFillPrice = JFloat 101\<rparr>]\<rparr>)"
      using h by (simp add: po emit_def recv_on_def fresh_sock_def)
    finally show ?thesis .
  qed
  show ?thesis using po li by (rule conjI)
qed

section \<open>Orders on the emulator\<close>

text \<open>
  Claim C3. An order request is a message with an \<^verbatim>\<open>order\<close> object; the bar source is
  the loaded, non-empty data frame; the counter has not gone below zero. Then
  \<^verbatim>\<open>handle_order\<close> returns, and the reply it hands to \<^verbatim>\<open>send_message\<close> is an
  \<^verbatim>\<open>orderStatus\<close> message with the new order count as \<^verbatim>\<open>orderId\<close>, status \<^verbatim>\<open>'Filled'\<close>
  and as \<^verbatim>\<open>avgFillPrice\<close> the close of the row at index \<open>i\<close>, the new order count cut
  down to the last index. The index is a valid one: \<open>0 \<le> i\<close> and \<open>i\<close> is at most the
  last index, however large the count.
\<close>

theorem handle_order_fill:
  assumes "data_df e = Some df" and "df \<noteq> []" and "0 \<le> order_id e"
    and "msg = JObj kvs" and "dict_lookup kvs ''order'' = Some (JObj okvs)"
    and "get (JObj okvs) ''action'' = Inr act" and "get (JObj okvs) ''quantity'' = Inr q"
    and "i = min (order_id e + 1) (int (length df) - 1)"
  shows "0 \<le> i \<and> nat i < length df \<and> nat i \<le> length df - 1
         \<and> handle_order L sid msg e =
             (Returns (),
              send_message L sid
                (JObj [(''type'', JStr ''orderStatus''), (''orderId'', JInt (order_id e + 1)),
                       (''status'', JStr ''Filled''),
                       (''avgFillPrice'', JFloat (row_close (df ! nat i)))])
                (e\<lparr>order_id := order_id e + 1,
                   orders := (orders e)(order_id e + 1 \<mapsto>
                     \<lparr>rec_action = act, rec_quantity = q, rec_fill_price = row_close (df ! nat i)\<rparr>)\<rparr>))"
proof -
  have len: "0 < length df" using assms(2) by simp
  have i0: "0 \<le> i" using assms(3,8) len by simp
  have i1: "i < int (length df)" using assms(8) by simp
  have il: "iloc (map row_close df) i = Inr (row_close (df ! nat i))"
    using i0 i1 by (simp add: iloc_def)
  have n1: "nat i < length df" using i0 i1 by linarith
  have n2: "nat i \<le> length df - 1" using n1 by linarith
  have run: "handle_order L sid msg e =
             (Returns (),
              send_message L sid
                (JObj [(''type'', JStr ''orderStatus''), (''orderId'', JInt (order_id e + 1)),
                       (''status'', JStr ''Filled''),
                       (''avgFillPrice'', JFloat (row_close (df ! nat i)))])
                (e\<lparr>order_id := order_id e + 1,
                   orders := (orders e)(order_id e + 1 \<mapsto>
                     \<lparr>rec_action = act, rec_quantity = q, rec_fill_price = row_close (df ! nat i)\<rparr>)\<rparr>))"
    using assms(1,4,5,6,7,8) il by (simp add: handle_order_def Let_def)
  show ?thesis using i0 n1 n2 run by blast
qed

theorem handle_order_fill_witness:
  "handle_order pylib 0 order_request (example_emulator\<lparr>order_id := 5\<rparr>) =
     (Returns (),
      example_emulator
        \<lparr>order_id := 6,
         orders := [6 \<mapsto> \<lparr>rec_action = JStr ''BUY'', rec_quantity = JInt 10, rec_fill_price = 102\<rparr>],
         socks := (socks example_emulator)(0 := fresh_sock\<lparr>sent := [clamped_status_frame @ [NL]]\<rparr>)\<rparr>)"
  using handle_order_fill [of "example_emulator\<lparr>order_id := 5\<rparr>" example_rows order_request
          "[(''type'', JStr ''placeOrder''),
            (''order'', JObj [(''action'', JStr ''BUY''), (''quantity'', JInt 10)])]"
          "[(''action'', JStr ''BUY''), (''quantity'', JInt 10)]" "JStr ''BUY''" "JInt 10" 2 pylib 0]
  by (simp add: example_emulator_def init_emulator_def example_rows_def order_request_def
        dict_lookup_def send_message_def sock_send_def fresh_sock_def pylib_def dumps_clamped_status_frame
        del: json_dumps.simps)

section \<open>The order counter between handler threads\<close>

lemma handle_order_two_parts:
  "handle_order L sid msg e = fill_order L sid msg (increment_order_id e)"
  by (simp add: handle_order_def fill_order_def increment_order_id_def Let_def)

lemma fill_order_reply:
  assumes "data_df e = Some df" and "df \<noteq> []" and "0 < order_id e"
    and "get msg ''order'' = Inr (JObj okvs)"
    and "\<not> closed (socks e sid)" and "\<not> broken (socks e sid)"
  shows "fill_order L sid msg e =
           (Returns (),
            e\<lparr>orders := (orders e)(order_id e \<mapsto>
                   \<lparr>rec_action = (case dict_lookup okvs ''action'' of None \<Rightarrow> JNull | Some v \<Rightarrow> v),
                    rec_quantity = (case dict_lookup okvs ''quantity'' of None \<Rightarrow> JNull | Some v \<Rightarrow> v),
                    rec_fill_price = fill_price_at df (order_id e)\<rparr>),
              socks := (socks e)(sid := (socks e sid)
                   \<lparr>sent := sent (socks e sid)
                      @ [dumps L (order_status (order_id e) (fill_price_at df (order_id e))) @ [NL]]\<rparr>)\<rparr>)"
proof -
  let ?i = "min (order_id e) (int (length df) - 1)"
  have len: "0 < length df" using assms(2) by simp
  have i0: "0 \<le> ?i" using assms(3) len by simp
  have i1: "?i < int (length df)" by simp
  have n1: "nat ?i < length df" using i0 i1 by linarith
  have nm: "map row_close df ! nat ?i = row_close (df ! nat ?i)"
    using n1 by (rule nth_map)
  have il: "iloc (map row_close df) ?i = Inr (fill_price_at df (order_id e))"
    using i0 i1 nm by (simp add: iloc_def fill_price_at_def)
  have a: "get (JObj okvs) ''action'' = Inr (case dict_lookup okvs ''action'' of None \<Rightarrow> JNull | Some v \<Rightarrow> v)"
    "get (JObj okvs) ''quantity'' = Inr (case dict_lookup okvs ''quantity'' of None \<Rightarrow> JNull | Some v \<Rightarrow> v)"
    by (simp_all split: option.splits)
  show ?thesis
    using assms(1,4,5,6) il a
    by (simp add: fill_order_def Let_def send_message_def sock_send_def order_status_def
          del: get.simps)
qed

text \<open>
  Claim C4. Two order requests arrive on two connections of a fresh instance (counter
  0), and the handler threads run in this order: the handler of \<open>a\<close> runs line 119, the
  handler of \<open>b\<close> runs line 119 and then the rest of its call, then the handler of \<open>a\<close>
  runs the rest of its call. Both calls return, and both replies carry \<^verbatim>\<open>orderId\<close> 2:
  the two orders do not get the identifiers 1 and 2. Both records are stored under the
  key 2, the second over the first, and nothing is stored under 1.
\<close>

theorem interleaved_orders_get_the_same_id:
  assumes "data_df e = Some df" and "df \<noteq> []" and "order_id e = 0"
    and "get msg_a ''order'' = Inr (JObj okvs_a)" and "get msg_b ''order'' = Inr (JObj okvs_b)"
    and "a \<noteq> b"
    and "\<not> closed (socks e a)" and "\<not> broken (socks e a)"
    and "\<not> closed (socks e b)" and "\<not> broken (socks e b)"
    and "e2 = increment_order_id (increment_order_id e)"
    and "e3 = snd (fill_order L b msg_b e2)"
    and "e4 = snd (fill_order L a msg_a e3)"
  shows "fst (fill_order L b msg_b e2) = Returns () \<and> fst (fill_order L a msg_a e3) = Returns ()
       \<and> sent (socks e4 a) = sent (socks e a) @ [dumps L (order_status 2 (fill_price_at df 2)) @ [NL]]
       \<and> sent (socks e4 b) = sent (socks e b) @ [dumps L (order_status 2 (fill_price_at df 2)) @ [NL]]
       \<and> orders e4 1 = orders e 1 \<and> orders e4 2 \<noteq> None \<and> order_id e4 = 2"
proof -
  have e2: "data_df e2 = Some df" "order_id e2 = 2" "socks e2 = socks e" "orders e2 = orders e"
    using assms(1,3,11) by (simp_all add: increment_order_id_def)
  have b: "fill_order L b msg_b e2 =
           (Returns (),
            e2\<lparr>orders := (orders e2)(order_id e2 \<mapsto>
                   \<lparr>rec_action = (case dict_lookup okvs_b ''action'' of None \<Rightarrow> JNull | Some v \<Rightarrow> v),
                    rec_quantity = (case dict_lookup okvs_b ''quantity'' of None \<Rightarrow> JNull | Some v \<Rightarrow> v),
                    rec_fill_price = fill_price_at df (order_id e2)\<rparr>),
              socks := (socks e2)(b := (socks e2 b)
                   \<lparr>sent := sent (socks e2 b)
                      @ [dumps L (order_status (order_id e2) (fill_price_at df (order_id e2))) @ [NL]]\<rparr>)\<rparr>)"
    using assms(5,9,10) e2 assms(2)
    by (intro fill_order_reply) simp_all
  have e3: "data_df e3 = Some df" "order_id e3 = 2" "socks e3 a = socks e a"
    "sent (socks e3 b) = sent (socks e b) @ [dumps L (order_status 2 (fill_price_at df 2)) @ [NL]]"
    "orders e3 1 = orders e 1"
    using assms(6,12) e2 by (simp_all add: b)
  have a: "fill_order L a msg_a e3 =
           (Returns (),
            e3\<lparr>orders := (orders e3)(order_id e3 \<mapsto>
                   \<lparr>rec_action = (case dict_lookup okvs_a ''action'' of None \<Rightarrow> JNull | Some v \<Rightarrow> v),
                    rec_quantity = (case dict_lookup okvs_a ''quantity'' of None \<Rightarrow> JNull | Some v \<Rightarrow> v),
                    rec_fill_price = fill_price_at df (order_id e3)\<rparr>),
              socks := (socks e3)(a := (socks e3 a)
                   \<lparr>sent := sent (socks e3 a)
                      @ [dumps L (order_status (order_id e3) (fill_price_at df (order_id e3))) @ [NL]]\<rparr>)\<rparr>)"
    using assms(4,7,8) e3 assms(2)
    by (intro fill_order_reply) simp_all
  show ?thesis
    using assms(6,13) e3 by (simp add: a b)
qed

lemma example_fill_prices: "fill_price_at example_rows 1 = 101" "fill_price_at example_rows 2 = 102"
  by (simp_all add: fill_price_at_def example_rows_def)

lemma order_request_order:
  "get order_request ''order'' = Inr (JObj [(''action'', JStr ''BUY''), (''quantity'', JInt 10)])"
  by (simp add: order_request_def dict_lookup_def)

lemma order_read_order_frame: "order_read pylib (order_frame @ [NL])"
  by (simp add: order_read_def pylib_def loads_order_frame order_request_def dict_lookup_def)

text \<open>
  On the example emulator, with the requests on the sockets 0 and 1: under the schedule
  above both sockets receive the reply with \<^verbatim>\<open>orderId\<close> 2; when the two calls run one
  after the other, socket 0 receives \<^verbatim>\<open>orderId\<close> 1 and socket 1 receives \<^verbatim>\<open>orderId\<close> 2.
\<close>

theorem interleaved_orders_get_the_same_id_witness:
  "sent (socks (snd (fill_order pylib 0 order_request
                  (snd (fill_order pylib 1 order_request
                     (increment_order_id (increment_order_id example_emulator)))))) 0)
     = [second_status_frame @ [NL]]
   \<and> sent (socks (snd (fill_order pylib 0 order_request
                  (snd (fill_order pylib 1 order_request
                     (increment_order_id (increment_order_id example_emulator)))))) 1)
     = [second_status_frame @ [NL]]
   \<and> orders (snd (fill_order pylib 0 order_request
                  (snd (fill_order pylib 1 order_request
                     (increment_order_id (increment_order_id example_emulator)))))) 1 = None
   \<and> sent (socks (snd (handle_order pylib 1 order_request
                  (snd (handle_order pylib 0 order_request example_emulator)))) 0)
     = [status_frame @ [NL]]
   \<and> sent (socks (snd (handle_order pylib 1 order_request
                  (snd (handle_order pylib 0 order_request example_emulator)))) 1)
     = [second_status_frame @ [NL]]"
proof -
  let ?e2 = "increment_order_id (increment_order_id example_emulator)"
  let ?e3 = "snd (fill_order pylib 1 order_request ?e2)"
  let ?e4 = "snd (fill_order pylib 0 order_request ?e3)"
  have ne: "example_rows \<noteq> []" "(0::nat) \<noteq> 1" by (simp_all add: example_rows_def)
  note t = interleaved_orders_get_the_same_id [where e = example_emulator and df = example_rows
      and msg_a = order_request and msg_b = order_request and a = 0 and b = 1 and L = pylib
      and ?e2.0 = ?e2 and ?e3.0 = ?e3 and ?e4.0 = ?e4,
      OF example_emulator_simps(4) ne(1) example_emulator_simps(5) order_request_order
        order_request_order ne(2) example_emulator_simps(2,3) example_emulator_simps(2,3)
        refl refl refl]
  have d2: "dumps pylib (order_status 2 102) = second_status_frame"
    "dumps pylib (order_status 1 101) = status_frame"
    using dumps_second_status_frame dumps_status_frame by (simp_all add: pylib_def order_status_def)
  have s0: "sent (socks example_emulator sid) = []" "orders example_emulator 1 = None" for sid
    by (simp_all add: example_emulator_def init_emulator_def fresh_sock_def)
  have inter: "sent (socks ?e4 0) = [second_status_frame @ [NL]]"
    "sent (socks ?e4 1) = [second_status_frame @ [NL]]" "orders ?e4 1 = None"
    using t by (simp_all add: example_fill_prices d2 s0)
  have seq: "sent (socks (snd (handle_order pylib 1 order_request
                  (snd (handle_order pylib 0 order_request example_emulator)))) 0)
               = [status_frame @ [NL]]"
    "sent (socks (snd (handle_order pylib 1 order_request
                  (snd (handle_order pylib 0 order_request example_emulator)))) 1)
       = [second_status_frame @ [NL]]"
    by (simp_all add: example_emulator_def init_emulator_def fresh_sock_def order_request_def
          dict_lookup_def handle_order_def Let_def example_rows_def iloc_def send_message_def
          sock_send_def pylib_def dumps_status_frame dumps_second_status_frame
          del: json_dumps.simps)
  show ?thesis using inter seq by simp
qed

lemma process_message_order:
  assumes "order_read L d" and "data_df e = Some df" and "df \<noteq> []" and "0 \<le> order_id e"
    and "\<not> closed (socks e sid)" and "\<not> broken (socks e sid)"
  shows "\<exists>r. process_message L sid d e =
           (Returns (),
            e\<lparr>order_id := order_id e + 1,
              orders := (orders e)(order_id e + 1 \<mapsto> r),
              socks := (socks e)(sid := (socks e sid)
                   \<lparr>sent := sent (socks e sid)
                      @ [dumps L (order_status (order_id e + 1) (fill_price_at df (order_id e + 1))) @ [NL]]\<rparr>)\<rparr>)"
proof -
  obtain m where l: "loads L d = Some m"
    using assms(1) by (cases "loads L d") (simp_all add: order_read_def)
  obtain kvs where k: "m = JObj kvs"
    using assms(1) l by (cases m) (simp_all add: order_read_def)
  have ty: "dict_lookup kvs ''type'' = Some (JStr ''placeOrder'')"
    using assms(1) l k by (simp add: order_read_def)
  obtain v where ov: "dict_lookup kvs ''order'' = Some v"
    using assms(1) l k by (cases "dict_lookup kvs ''order''") (simp_all add: order_read_def)
  obtain okvs where ok: "v = JObj okvs"
    using assms(1) l k ov by (cases v) (simp_all add: order_read_def)
  let ?e1 = "increment_order_id e"
  have e1: "data_df ?e1 = Some df" "0 < order_id ?e1" "\<not> closed (socks ?e1 sid)"
    "\<not> broken (socks ?e1 sid)" "order_id ?e1 = order_id e + 1" "orders ?e1 = orders e"
    "socks ?e1 = socks e"
    using assms(2,4,5,6) by (simp_all add: increment_order_id_def)
  have g: "get (JObj kvs) ''order'' = Inr (JObj okvs)" "get (JObj kvs) ''type'' = Inr (JStr ''placeOrder'')"
    using ov ok ty by simp_all
  have pm: "process_message L sid d e = fill_order L sid (JObj kvs) ?e1"
    using l k g(2) by (simp add: process_message_def handle_order_two_parts del: get.simps)
  note fr = fill_order_reply [OF e1(1) assms(3) e1(2) g(1) e1(3,4), of L]
  have up: "?e1\<lparr>orders := (orders e)(order_id e + 1 \<mapsto> r), socks := sk\<rparr>
            = e\<lparr>order_id := order_id e + 1, orders := (orders e)(order_id e + 1 \<mapsto> r), socks := sk\<rparr>"
    for r sk
    by (simp add: increment_order_id_def)
  show ?thesis
    unfolding pm fr e1(5,6,7) up by (rule exI) (rule refl)
qed

text \<open>
  When the order requests are handled one at a time, the identifiers are what the
  counter promises. One handler reads \<open>n\<close> order requests, one per read, and no other
  handler runs in between: the replies written to its socket carry, in order, the
  identifiers that follow the counter's value at the start (from 0: 1, 2, ..., \<open>n\<close>), each
  with the close at its clamped index; the counter has advanced by \<open>n\<close>; and
  \<^verbatim>\<open>self.orders\<close> has gained exactly these identifiers as keys.
\<close>

theorem handle_client_orders_in_turn:
  assumes "em_running e" and "\<not> closed (socks e sid)" and "\<not> broken (socks e sid)"
    and "data_df e = Some df" and "df \<noteq> []" and "0 \<le> order_id e"
    and "\<forall>d\<in>set ds. order_read L d"
  shows "\<exists>e'. handle_client L sid (map Data ds) e = (BlocksOnRecv, e')
           \<and> order_id e' = order_id e + int (length ds)
           \<and> sent (socks e' sid) = sent (socks e sid)
                @ map (\<lambda>k. dumps L (order_status (order_id e + 1 + int k)
                                       (fill_price_at df (order_id e + 1 + int k))) @ [NL])
                    [0..<length ds]
           \<and> dom (orders e') = dom (orders e) \<union> {order_id e + 1 .. order_id e + int (length ds)}"
  using assms
proof (induction ds arbitrary: e)
  case Nil
  then show ?case by (simp add: recv_on_def)
next
  case (Cons d ds)
  let ?c = "order_id e"
  let ?f = "\<lambda>n. dumps L (order_status n (fill_price_at df n)) @ [NL]"
  have d: "order_read L d" "d \<noteq> []" and rest: "\<forall>d\<in>set ds. order_read L d"
    using Cons.prems(7) by (simp_all add: order_read_def)
  obtain r where pm: "process_message L sid d e =
           (Returns (),
            e\<lparr>order_id := ?c + 1, orders := (orders e)(?c + 1 \<mapsto> r),
              socks := (socks e)(sid := (socks e sid)\<lparr>sent := sent (socks e sid) @ [?f (?c + 1)]\<rparr>)\<rparr>)"
    using process_message_order [OF d(1) Cons.prems(4,5,6,2,3)] by blast
  let ?e1 = "e\<lparr>order_id := ?c + 1, orders := (orders e)(?c + 1 \<mapsto> r),
              socks := (socks e)(sid := (socks e sid)\<lparr>sent := sent (socks e sid) @ [?f (?c + 1)]\<rparr>)\<rparr>"
  have e1: "em_running ?e1" "\<not> closed (socks ?e1 sid)" "\<not> broken (socks ?e1 sid)"
    "data_df ?e1 = Some df" "0 \<le> order_id ?e1"
    using Cons.prems(1,2,3,4,6) by simp_all
  obtain e' where ih: "handle_client L sid (map Data ds) ?e1 = (BlocksOnRecv, e')"
    "order_id e' = order_id ?e1 + int (length ds)"
    "sent (socks e' sid) = sent (socks ?e1 sid)
       @ map (\<lambda>k. ?f (order_id ?e1 + 1 + int k)) [0..<length ds]"
    "dom (orders e') = dom (orders ?e1) \<union> {order_id ?e1 + 1 .. order_id ?e1 + int (length ds)}"
    using Cons.IH [OF e1(1,2,3,4) Cons.prems(5) e1(5) rest] by blast
  have step: "handle_client L sid (map Data (d # ds)) e = (BlocksOnRecv, e')"
    using Cons.prems(1,2) d(2) pm ih(1) by (simp add: recv_on_def)
  have cnt: "order_id e' = ?c + int (length (d # ds))" using ih(2) by simp
  have ar: "\<And>k. ?c + 1 + int (Suc k) = ?c + 1 + 1 + int k" by simp
  have shift: "map (\<lambda>k. ?f (?c + 1 + int k)) [0..<Suc (length ds)]
               = ?f (?c + 1) # map (\<lambda>k. ?f (?c + 1 + 1 + int k)) [0..<length ds]"
    unfolding map_upt_Suc ar by simp
  have o1: "order_id ?e1 = ?c + 1"
    and s1: "sent (socks ?e1 sid) = sent (socks e sid) @ [?f (?c + 1)]"
    and d1: "dom (orders ?e1) = insert (?c + 1) (dom (orders e))"
    by simp_all
  have snt: "sent (socks e' sid) = sent (socks e sid)
               @ map (\<lambda>k. ?f (?c + 1 + int k)) [0..<length (d # ds)]"
    unfolding ih(3) o1 s1 list.size(4) using shift by simp
  have iv: "insert (?c + 1) {?c + 1 + 1 .. ?c + 1 + int (length ds)}
            = {?c + 1 .. ?c + int (length (d # ds))}"
    by auto
  have dm: "dom (orders e') = dom (orders e) \<union> {?c + 1 .. ?c + int (length (d # ds))}"
    unfolding ih(4) o1 d1 iv [symmetric] by blast
  from step cnt snt dm show ?case by (intro exI [of _ e'] conjI)
qed

theorem handle_client_orders_in_turn_witness:
  "\<exists>e'. handle_client pylib 0 [Data (order_frame @ [NL]), Data (order_frame @ [NL])] example_emulator
          = (BlocksOnRecv, e')
        \<and> order_id e' = 2
        \<and> sent (socks e' 0) = [status_frame @ [NL], second_status_frame @ [NL]]
        \<and> dom (orders e') = {1, 2}"
proof -
  have ne: "example_rows \<noteq> []" "0 \<le> order_id example_emulator"
    "\<forall>d\<in>set [order_frame @ [NL], order_frame @ [NL]]. order_read pylib d"
    by (simp_all add: example_rows_def example_emulator_simps order_read_order_frame)
  note t = handle_client_orders_in_turn [where e = example_emulator and sid = 0 and df = example_rows
      and L = pylib and ds = "[order_frame @ [NL], order_frame @ [NL]]",
      OF example_emulator_simps(1,2,3,4) ne]
  have d2: "dumps pylib (order_status 2 102) = second_status_frame"
    "dumps pylib (order_status 1 101) = status_frame"
    using dumps_second_status_frame dumps_status_frame by (simp_all add: pylib_def order_status_def)
  have s0: "sent (socks example_emulator 0) = []" "dom (orders example_emulator) = {}"
    "{1..2::int} = {1, 2}"
    by (auto simp add: example_emulator_def init_emulator_def fresh_sock_def)
  show ?thesis
    using t by (simp add: example_emulator_simps example_fill_prices d2 s0 upt_rec)
qed

section \<open>Messages of an unknown type\<close>

lemma dispatch_unknown_type:
  assumes "subscript msg ''type'' = Inr t"
    and "t \<noteq> JStr ''barUpdate''" and "t \<noteq> JStr ''orderStatus''" and "t \<noteq> JStr ''endOfData''"
  shows "dispatch L msg c = (Returns False, c)"
  using assms by (simp add: dispatch_def)

lemma process_message_unknown_type:
  assumes "loads L text = Some msg" and "get msg ''type'' = Inr t"
    and "t \<noteq> JStr ''reqRealTimeBars''" and "t \<noteq> JStr ''placeOrder''" and "t \<noteq> JStr ''disconnect''"
  shows "process_message L sid text e = (Returns (), e)"
  using assms by (simp add: process_message_def)

text \<open>
  Claim C5, as amended. A message that decodes to an object whose \<^verbatim>\<open>type\<close> is none of the
  types the receiver handles is ignored. On the client (\<open>msg\<close>, read with
  \<^verbatim>\<open>msg['type']\<close>): the dispatch changes nothing, the frames loop goes on with the text
  after the frame, and the receive loop goes on with the next read. On the server
  (\<open>msg'\<close>, read with \<^verbatim>\<open>msg.get('type')\<close>, so that an object without a \<^verbatim>\<open>type\<close> field is
  included): \<^verbatim>\<open>process_message\<close> returns with the emulator unchanged, nothing is
  written, and the handler goes on with the next read.
\<close>

theorem unknown_type_is_ignored:
  assumes "loads L line = Some msg" and "NL \<notin> set line" and "\<not> blank line"
    and "subscript msg ''type'' = Inr t"
    and "t \<noteq> JStr ''barUpdate''" and "t \<noteq> JStr ''orderStatus''" and "t \<noteq> JStr ''endOfData''"
    and "running c" and "socket c = Some s" and "\<not> closed s"
    and "loads L text = Some msg'" and "text \<noteq> []"
    and "get msg' ''type'' = Inr t'"
    and "t' \<noteq> JStr ''reqRealTimeBars''" and "t' \<noteq> JStr ''placeOrder''" and "t' \<noteq> JStr ''disconnect''"
    and "em_running e" and "\<not> closed (socks e sid)"
  shows "dispatch L msg c = (Returns False, c)
       \<and> frames_loop L (line @ NL # rest) c = frames_loop L rest c
       \<and> listen_loop L (Data (line @ [NL]) # rs) [] c = listen_loop L rs [] c
       \<and> process_message L sid text e = (Returns (), e)
       \<and> handle_client L sid (Data text # rs') e = handle_client L sid rs' e"
proof -
  have d: "dispatch L msg c = (Returns False, c)"
    using assms(4-7) by (rule dispatch_unknown_type)
  have f: "\<And>rest. frames_loop L (line @ NL # rest) c = frames_loop L rest c"
    using assms(1,3) d by (simp add: frames_loop_frame [OF assms(2)])
  have l: "listen_loop L (Data (line @ [NL]) # rs) [] c = listen_loop L rs [] c"
    using assms(2,8,9,10) f [of "[]"] by (simp add: recv_on_def frames_loop_no_newline)
  have p: "process_message L sid text e = (Returns (), e)"
    using assms(11,13-16) by (rule process_message_unknown_type)
  have h: "handle_client L sid (Data text # rs') e = handle_client L sid rs' e"
    using assms(12,17,18) p by (simp add: recv_on_def)
  show ?thesis using d f l p h by blast
qed

text \<open>
  Claim C5 as stated fails on a message with a missing field. The client reads a frame
  without a \<^verbatim>\<open>type\<close> field: \<^verbatim>\<open>msg['type']\<close> raises, the receive task disconnects and
  exits, and the order status that arrives next is never dispatched. The server reads a
  \<^verbatim>\<open>placeOrder\<close> without an \<^verbatim>\<open>order\<close> field: \<^verbatim>\<open>order.get\<close> raises on \<^verbatim>\<open>None\<close>, the
  handler prints the error and ends, and the valid order in the next read is never
  processed.
\<close>

theorem missing_field_ends_receiver:
  \<open>listen pylib [Data (no_type_frame @ [NL]), Data (status_frame @ [NL])] example_client
     = (Returns (),
        example_client
          \<lparr>socket := Some (fresh_sock\<lparr>closed := True, sent := [disconnect_frame @ [NL]]\<rparr>),
           connected := False, running := False, stop_event := True,
           out := [Print ConnectedTo, Print ClientListenError, Print DisconnectedFromEmulator,
                   Print ListenThreadExiting]\<rparr>)
   \<and> handle_client pylib 0 [Data (bare_order_frame @ [NL]), Data (order_frame @ [NL])]
        example_emulator
     = (Returns (), example_emulator\<lparr>order_id := 1, printed := [ErrorHandlingClient]\<rparr>)\<close>
proof -
  have c: \<open>listen pylib [Data (no_type_frame @ [NL]), Data (status_frame @ [NL])] example_client
     = (Returns (),
        example_client
          \<lparr>socket := Some (fresh_sock\<lparr>closed := True, sent := [disconnect_frame @ [NL]]\<rparr>),
           connected := False, running := False, stop_event := True,
           out := [Print ConnectedTo, Print ClientListenError, Print DisconnectedFromEmulator,
                   Print ListenThreadExiting]\<rparr>)\<close>
    by (simp add: listen_def example_client_def connect_def init_client_def emit_def
          fresh_sock_def recv_on_def frames_loop_frame no_type_frame_line pylib_def
          loads_no_type_frame dispatch_def dict_lookup_def on_listen_error_def disconnect_def
          sock_send_def sock_close_def dumps_disconnect_frame del: json_dumps.simps)
  have s: \<open>handle_client pylib 0 [Data (bare_order_frame @ [NL]), Data (order_frame @ [NL])]
        example_emulator
     = (Returns (), example_emulator\<lparr>order_id := 1, printed := [ErrorHandlingClient]\<rparr>)\<close>
    by (simp add: example_emulator_def init_emulator_def fresh_sock_def recv_on_def
          process_message_def pylib_def loads_bare_order_frame dict_lookup_def
          handle_order_def Let_def say_def bare_order_frame_def [symmetric])
  show ?thesis using c s by (rule conjI)
qed

section \<open>Framing on the server\<close>

text \<open>
  Claim C1. The server's handler does not buffer: the text of one read goes to
  \<^verbatim>\<open>json.loads\<close> as it is. When two frames arrive in one read, \<^verbatim>\<open>json.loads\<close> rejects
  the text (two documents), the handler prints \<^verbatim>\<open>Invalid message\<close> and neither frame is
  dispatched.
\<close>

theorem handle_client_two_frames_in_one_read:
  assumes "em_running e" and "\<not> closed (socks e sid)"
    and "loads L (f1 @ NL # f2 @ [NL]) = None"
  shows "handle_client L sid (Data (f1 @ NL # f2 @ [NL]) # rs) e =
           handle_client L sid rs (say (InvalidMessage (f1 @ NL # f2 @ [NL])) e)"
  using assms by (simp add: recv_on_def process_message_def)

lemma loads_order_frame_cut:
  "json_loads (take 30 order_frame) = None" "json_loads (drop 30 order_frame @ [NL]) = None"
  "order_frame \<noteq> []"
  by code_simp+

text \<open>
  Two order frames in one read: both are dropped. One order frame cut across two reads:
  both halves are dropped. The same two frames, one per read: both orders are filled.
\<close>

theorem handle_client_two_frames_in_one_read_witness:
  \<open>handle_client pylib 0 [Data (order_frame @ NL # order_frame @ [NL])] example_emulator
     = (BlocksOnRecv, say (InvalidMessage (order_frame @ NL # order_frame @ [NL])) example_emulator)
   \<and> handle_client pylib 0 [Data (take 30 order_frame), Data (drop 30 order_frame @ [NL])]
        example_emulator
     = (BlocksOnRecv,
        example_emulator\<lparr>printed := [InvalidMessage (take 30 order_frame),
                                       InvalidMessage (drop 30 order_frame @ [NL])]\<rparr>)
   \<and> handle_client pylib 0 [Data (order_frame @ [NL]), Data (order_frame @ [NL])] example_emulator
     = (BlocksOnRecv,
        example_emulator
          \<lparr>order_id := 2,
           orders := [1 \<mapsto> \<lparr>rec_action = JStr ''BUY'', rec_quantity = JInt 10, rec_fill_price = 101\<rparr>,
                      2 \<mapsto> \<lparr>rec_action = JStr ''BUY'', rec_quantity = JInt 10, rec_fill_price = 102\<rparr>],
           socks := (socks example_emulator)(0 := fresh_sock
             \<lparr>sent := [status_frame @ [NL],
                       second_status_frame @ [NL]]\<rparr>)\<rparr>)\<close>
proof -
  have a: "loads pylib (order_frame @ NL # order_frame @ [NL]) = None"
    by (simp add: pylib_def loads_two_order_frames)
  have one: "handle_client pylib 0 [Data (order_frame @ NL # order_frame @ [NL])] example_emulator
     = (BlocksOnRecv, say (InvalidMessage (order_frame @ NL # order_frame @ [NL])) example_emulator)"
    using handle_client_two_frames_in_one_read [of example_emulator 0 pylib order_frame order_frame "[]"] a
    by (simp add: example_emulator_simps say_def recv_on_def)
  have cut: "handle_client pylib 0 [Data (take 30 order_frame), Data (drop 30 order_frame @ [NL])]
        example_emulator
     = (BlocksOnRecv,
        example_emulator\<lparr>printed := [InvalidMessage (take 30 order_frame),
                                       InvalidMessage (drop 30 order_frame @ [NL])]\<rparr>)"
    by (simp add: example_emulator_def init_emulator_def fresh_sock_def recv_on_def
          process_message_def pylib_def loads_order_frame_cut say_def)
  have two: "handle_client pylib 0 [Data (order_frame @ [NL]), Data (order_frame @ [NL])] example_emulator
     = (BlocksOnRecv,
        example_emulator
          \<lparr>order_id := 2,
           orders := [1 \<mapsto> \<lparr>rec_action = JStr ''BUY'', rec_quantity = JInt 10, rec_fill_price = 101\<rparr>,
                      2 \<mapsto> \<lparr>rec_action = JStr ''BUY'', rec_quantity = JInt 10, rec_fill_price = 102\<rparr>],
           socks := (socks example_emulator)(0 := fresh_sock
             \<lparr>sent := [json_dumps (JObj [(''type'', JStr ''orderStatus''), (''orderId'', JInt 1),
                      (''status'', JStr ''Filled''), (''avgFillPrice'', JFloat 101)]) @ [NL],
                       json_dumps (JObj [(''type'', JStr ''orderStatus''), (''orderId'', JInt 2),
                      (''status'', JStr ''Filled''), (''avgFillPrice'', JFloat 102)]) @ [NL]]\<rparr>)\<rparr>)"
    by (simp add: example_emulator_def init_emulator_def fresh_sock_def recv_on_def
          process_message_def pylib_def loads_order_frame order_request_def dict_lookup_def
          handle_order_def Let_def example_rows_def iloc_def send_message_def sock_send_def
          del: json_dumps.simps)
  show ?thesis
    using one cut two by (simp only: dumps_status_frame dumps_second_status_frame)
qed

section \<open>Streaming bars\<close>

lemma send_message_open:
  "\<not> closed (socks e sid) \<Longrightarrow> \<not> broken (socks e sid) \<Longrightarrow>
   send_message L sid m e =
     e\<lparr>socks := (socks e)(sid := (socks e sid)\<lparr>sent := sent (socks e sid) @ [dumps L m @ [NL]]\<rparr>)\<rparr>"
  by (simp add: send_message_def sock_send_def)

lemma stream_rows_open:
  assumes "\<not> closed (socks e sid)" and "\<not> broken (socks e sid)"
    and "\<forall>i<length rs. running_at (k + i)"
  shows "stream_rows L running_at sid k rs e =
           e\<lparr>socks := (socks e)(sid := (socks e sid)
                    \<lparr>sent := sent (socks e sid) @ map (\<lambda>r. dumps L (bar_message r) @ [NL]) rs\<rparr>),
              printed := printed e @ map (\<lambda>r. StreamingBar (row_date r)) rs\<rparr>"
  using assms
proof (induction rs arbitrary: e k)
  case Nil
  then show ?case by simp
next
  case (Cons r rs)
  let ?e1 = "send_message L sid (bar_message r) (say (StreamingBar (row_date r)) e)"
  have run: "running_at k" using Cons.prems(3) by force
  have rest: "\<forall>i<length rs. running_at (Suc k + i)" using Cons.prems(3) by force
  have e1: "?e1 = e\<lparr>socks := (socks e)(sid := (socks e sid)
                    \<lparr>sent := sent (socks e sid) @ [dumps L (bar_message r) @ [NL]]\<rparr>),
                 printed := printed e @ [StreamingBar (row_date r)]\<rparr>"
    using Cons.prems(1,2) by (simp add: send_message_def sock_send_def say_def)
  have o1: "\<not> closed (socks ?e1 sid)" "\<not> broken (socks ?e1 sid)"
    using Cons.prems(1,2) by (simp_all add: e1)
  have aux: "\<And>X Y f. (\<lambda>a. if a = sid then X else if a = sid then Y else f a)
                    = (\<lambda>a. if a = sid then X else (f a :: sock))"
    by auto
  show ?case
    using Cons.IH [OF o1 rest] run by (simp add: e1 aux)
qed

lemma stream_rows_stop:
  assumes "\<forall>i<j. running_at (k + i)" and "\<not> running_at (k + j)" and "j < length rs"
  shows "stream_rows L running_at sid k rs e = stream_rows L running_at sid k (take j rs) e"
  using assms
proof (induction rs arbitrary: e k j)
  case Nil
  then show ?case by simp
next
  case (Cons r rs)
  show ?case
  proof (cases j)
    case 0
    then show ?thesis using Cons.prems(2) by simp
  next
    case (Suc j')
    have run: "running_at k" using Cons.prems(1) Suc by force
    have a: "\<forall>i<j'. running_at (Suc k + i)" using Cons.prems(1) Suc by force
    have b: "\<not> running_at (Suc k + j')" using Cons.prems(2) Suc by simp
    have c: "j' < length rs" using Cons.prems(3) Suc by simp
    show ?thesis using Cons.IH [OF a b c] run Suc by simp
  qed
qed

text \<open>
  Claim C6. The flag is read as cleared at iteration \<open>j\<close>, before the last row, and the
  socket is still open. The task then writes no further bar: the bars written are the
  first \<open>j\<close> rows. But \<^verbatim>\<open>break\<close> only leaves the loop, and the statement after the loop
  writes the end-of-stream message all the same.
\<close>

theorem stream_bars_stopped_writes_end_of_data:
  assumes "data_df e = Some data" and "aggregate data = Inr df"
    and "j < length df" and "\<forall>i<j. running_at i" and "\<not> running_at j"
    and "\<not> closed (socks e sid)" and "\<not> broken (socks e sid)"
  shows "stream_bars L aggregate running_at sid e =
           (Returns (),
            e\<lparr>socks := (socks e)(sid := (socks e sid)
                    \<lparr>sent := sent (socks e sid)
                             @ map (\<lambda>r. dumps L (bar_message r) @ [NL]) (take j df)
                             @ [dumps L (JObj [(''type'', JStr ''endOfData'')]) @ [NL]]\<rparr>),
               printed := printed e @ map (\<lambda>r. StreamingBar (row_date r)) (take j df)
                            @ [FinishedStreamingBars]\<rparr>)"
proof -
  have s0: "stream_rows L running_at sid 0 df e = stream_rows L running_at sid 0 (take j df) e"
    using stream_rows_stop [of j running_at 0 df L sid e] assms(3,4,5) by simp
  have len: "length (take j df) = j" using assms(3) by simp
  have s1: "stream_rows L running_at sid 0 (take j df) e =
           e\<lparr>socks := (socks e)(sid := (socks e sid)
                    \<lparr>sent := sent (socks e sid) @ map (\<lambda>r. dumps L (bar_message r) @ [NL]) (take j df)\<rparr>),
              printed := printed e @ map (\<lambda>r. StreamingBar (row_date r)) (take j df)\<rparr>"
    using stream_rows_open [of e sid "take j df" running_at 0 L] assms(4,6,7) len by simp
  show ?thesis
    using assms(1,2,6,7) by (simp add: stream_bars_def s0 s1 send_message_def sock_send_def say_def)
qed

section \<open>The example runs\<close>

lemma loads_heartbeat_frame:
  "json_loads heartbeat_frame = Some (JObj [(''type'', JStr ''heartbeat'')])"
  "json_loads (heartbeat_frame @ [NL]) = Some (JObj [(''type'', JStr ''heartbeat'')])"
  by code_simp+

lemma heartbeat_frame_line: "NL \<notin> set heartbeat_frame" "\<not> blank heartbeat_frame"
  by (simp_all add: heartbeat_frame_def blank_def isspace_def)

lemma dumps_first_bar: "json_dumps (bar_message (hd example_rows)) = first_bar_frame"
  by code_simp

lemma dumps_end_frame: "json_dumps (JObj [(''type'', JStr ''endOfData'')]) = end_frame"
  by code_simp

lemma loads_first_bar_frame: "json_loads first_bar_frame = Some (bar_message (hd example_rows))"
  by (simp add: first_bar_frame_def json_loads_def lex_number_def isdigit_def digits_value_def
        bar_message_def example_rows_def)

lemma loads_end_frame: "json_loads end_frame = Some (JObj [(''type'', JStr ''endOfData'')])"
  by code_simp

lemma first_bar_frame_line: "NL \<notin> set first_bar_frame" "\<not> blank first_bar_frame"
  by (simp_all add: first_bar_frame_def blank_def isspace_def)

lemma end_frame_line: "NL \<notin> set end_frame" "\<not> blank end_frame"
  by (simp_all add: end_frame_def blank_def isspace_def)

lemma example_client_simps:
  "connected example_client" "running example_client" "\<not> lock example_client"
  "socket example_client = Some fresh_sock" "\<not> closed fresh_sock" "\<not> broken fresh_sock"
  "bar_callback example_client = Some 1" "order_status_callback example_client = Some 2"
  "out example_client = [Print ConnectedTo]" "sent fresh_sock = []"
  by (simp_all add: example_client_def connect_def init_client_def emit_def fresh_sock_def)

theorem unknown_type_is_ignored_witness:
  "dispatch pylib (JObj [(''type'', JStr ''heartbeat'')]) example_client = (Returns False, example_client)
   \<and> listen_loop pylib [Data (heartbeat_frame @ [NL]), Data (status_frame @ [NL])] [] example_client
       = listen_loop pylib [Data (status_frame @ [NL])] [] example_client
   \<and> process_message pylib 0 (heartbeat_frame @ [NL]) example_emulator = (Returns (), example_emulator)
   \<and> handle_client pylib 0 [Data (heartbeat_frame @ [NL]), Data (order_frame @ [NL])] example_emulator
       = handle_client pylib 0 [Data (order_frame @ [NL])] example_emulator"
proof -
  have l: "loads pylib heartbeat_frame = Some (JObj [(''type'', JStr ''heartbeat'')])"
    "loads pylib (heartbeat_frame @ [NL]) = Some (JObj [(''type'', JStr ''heartbeat'')])"
    by (simp_all add: pylib_def loads_heartbeat_frame)
  have t: "subscript (JObj [(''type'', JStr ''heartbeat'')]) ''type'' = Inr (JStr ''heartbeat'')"
    "get (JObj [(''type'', JStr ''heartbeat'')]) ''type'' = Inr (JStr ''heartbeat'')"
    by (simp_all add: dict_lookup_def)
  have n: "JStr ''heartbeat'' \<noteq> JStr ''barUpdate''" "JStr ''heartbeat'' \<noteq> JStr ''orderStatus''"
    "JStr ''heartbeat'' \<noteq> JStr ''endOfData''" "JStr ''heartbeat'' \<noteq> JStr ''reqRealTimeBars''"
    "JStr ''heartbeat'' \<noteq> JStr ''placeOrder''" "JStr ''heartbeat'' \<noteq> JStr ''disconnect''"
    "heartbeat_frame @ [NL] \<noteq> []"
    by simp_all
  note u = unknown_type_is_ignored [OF l(1) heartbeat_frame_line t(1) n(1-3)
      example_client_simps(2,4,5) l(2) n(7) t(2) n(4-6) example_emulator_simps(1,2),
      where sid = 0 and rest = "[]" and rs = "[Data (status_frame @ [NL])]"
        and rs' = "[Data (order_frame @ [NL])]"]
  show ?thesis using u by blast
qed

theorem stream_bars_stopped_writes_end_of_data_witness:
  "stream_bars pylib Inr (\<lambda>i. i < 1) 0 example_emulator =
     (Returns (),
      example_emulator
        \<lparr>socks := (socks example_emulator)(0 := fresh_sock
                    \<lparr>sent := [first_bar_frame @ [NL], end_frame @ [NL]]\<rparr>),
         printed := [StreamingBar ''2024-01-02T09:30:00-05:00'', FinishedStreamingBars]\<rparr>)
   \<and> listen pylib [Data (first_bar_frame @ [NL]), Data (end_frame @ [NL])] example_client =
     (Returns (),
      example_client
        \<lparr>socket := Some (fresh_sock\<lparr>closed := True, sent := [disconnect_frame @ [NL]]\<rparr>),
         connected := False, running := False, stop_event := True,
         out := [Print ConnectedTo, BarCallback first_bar, Print ReceivedEndOfData,
                 Print DisconnectedFromEmulator, Print ListenThreadExiting]\<rparr>)"
proof -
  have a: "\<forall>i<1. (\<lambda>i. i < (1::nat)) i" "\<not> (\<lambda>i. i < (1::nat)) 1" "1 < length example_rows"
    "Inr example_rows = (Inr example_rows :: exn + row list)"
    by (simp_all add: example_rows_def)
  note t = stream_bars_stopped_writes_end_of_data [where e = example_emulator
      and data = example_rows and aggregate = Inr and df = example_rows and j = 1
      and running_at = "\<lambda>i. i < 1" and sid = 0 and L = pylib,
      OF example_emulator_simps(4) a(4) a(3) a(1) a(2) example_emulator_simps(2,3)]
  have d: "dumps pylib (bar_message (hd example_rows)) = first_bar_frame"
    "dumps pylib (JObj [(''type'', JStr ''endOfData'')]) = end_frame"
    by (simp_all add: pylib_def dumps_first_bar dumps_end_frame del: json_dumps.simps)
  have tk: "take (Suc 0) example_rows = [hd example_rows]" by (simp add: example_rows_def)
  have f: "socks example_emulator 0 = fresh_sock" "printed example_emulator = []"
    "sent fresh_sock = []" "row_date (hd example_rows) = ''2024-01-02T09:30:00-05:00''"
    by (simp_all add: example_emulator_def init_emulator_def fresh_sock_def example_rows_def)
  have srv: "stream_bars pylib Inr (\<lambda>i. i < 1) 0 example_emulator =
     (Returns (),
      example_emulator
        \<lparr>socks := (socks example_emulator)(0 := fresh_sock
                    \<lparr>sent := [first_bar_frame @ [NL], end_frame @ [NL]]\<rparr>),
         printed := [StreamingBar ''2024-01-02T09:30:00-05:00'', FinishedStreamingBars]\<rparr>)"
    using t by (simp add: tk d f)
  have cli: "listen pylib [Data (first_bar_frame @ [NL]), Data (end_frame @ [NL])] example_client =
     (Returns (),
      example_client
        \<lparr>socket := Some (fresh_sock\<lparr>closed := True, sent := [disconnect_frame @ [NL]]\<rparr>),
         connected := False, running := False, stop_event := True,
         out := [Print ConnectedTo, BarCallback first_bar, Print ReceivedEndOfData,
                 Print DisconnectedFromEmulator, Print ListenThreadExiting]\<rparr>)"
    by (simp add: listen_def example_client_def connect_def init_client_def emit_def
          fresh_sock_def recv_on_def frames_loop_frame first_bar_frame_line end_frame_line
          frames_loop_no_newline pylib_def loads_first_bar_frame loads_end_frame
          dispatch_def make_bar_def and_then_def bar_message_def example_rows_def
          iso_to_datetime_def isdigit_def first_bar_def
          dict_lookup_def disconnect_def sock_send_def sock_close_def dumps_disconnect_frame
          del: json_dumps.simps)
  show ?thesis using srv cli by (rule conjI)
qed

section \<open>From the emulator's stream to the client's callback\<close>

lemma dispatch_bar:
  assumes "bar_callback c \<noteq> None" and "to_datetime L (JStr (row_date r)) = Some (row_date r)"
  shows "dispatch L (bar_message r) c = (Returns False, emit (BarCallback (bar_of_row r)) c)"
  using assms
  by (simp add: dispatch_def bar_message_def make_bar_def and_then_def dict_lookup_def
        bar_of_row_def)

lemma disconnect_connected:
  assumes "connected c" and "\<not> lock c" and "socket c = Some s"
  shows "disconnect L c =
           (Returns (),
            c\<lparr>socket := Some (sock_close
                        (if closed s \<or> broken s then s
                         else s\<lparr>sent := sent s @ [dumps L (JObj [(''type'', JStr ''disconnect'')]) @ [NL]]\<rparr>)),
              connected := False, running := False, stop_event := True,
              out := out c @ (if closed s \<or> broken s then [Print DisconnectSendError] else [])
                       @ [Print DisconnectedFromEmulator]\<rparr>)"
  using assms by (auto simp add: disconnect_def sock_send_def emit_def)

lemma dispatch_end:
  assumes "connected c" and "\<not> lock c" and "socket c = Some s"
  shows "dispatch L end_message c = (Returns True, snd (disconnect L (emit (Print ReceivedEndOfData) c)))"
proof -
  have "connected (emit (Print ReceivedEndOfData) c)" "\<not> lock (emit (Print ReceivedEndOfData) c)"
    "socket (emit (Print ReceivedEndOfData) c) = Some s"
    using assms by (simp_all add: emit_def)
  from disconnect_connected [OF this, of L] show ?thesis
    by (simp add: dispatch_def end_message_def dict_lookup_def)
qed


lemma split_before_last:
  assumes "X @ us = D @ [a]" and "us \<noteq> []"
  shows "\<exists>u'. us = u' @ [a] \<and> X @ u' = D"
  using assms by (cases us rule: rev_cases) auto

lemma emit_fields:
  "bar_callback (emit ev c) = bar_callback c" "connected (emit ev c) = connected c"
  "lock (emit ev c) = lock c" "socket (emit ev c) = socket c" "running (emit ev c) = running c"
  "out (emit ev c) = out c @ [ev]"
  by (simp_all add: emit_def)

lemma frames_loop_stream_prefix:
  assumes "\<forall>r\<in>set rs. round_trip L (bar_message r)
                      \<and> to_datetime L (JStr (row_date r)) = Some (row_date r)"
    and "round_trip L end_message"
    and "bar_callback c \<noteq> None" and "connected c" and "\<not> lock c" and "socket c = Some s"
    and "X @ Y = frames_of L (map bar_message rs) @ dumps L end_message @ [NL]"
  shows "(Y \<noteq> [] \<and> (\<exists>rs1 rs2 r. rs = rs1 @ rs2 \<and> NL \<notin> set r
              \<and> r @ Y = frames_of L (map bar_message rs2) @ dumps L end_message @ [NL]
              \<and> frames_loop L X c =
                  (Drained, r, c\<lparr>out := out c @ map (\<lambda>r. BarCallback (bar_of_row r)) rs1\<rparr>)))
       \<or> (Y = [] \<and> frames_loop L X c =
             (Broke, [],
              snd (disconnect L (emit (Print ReceivedEndOfData)
                     (c\<lparr>out := out c @ map (\<lambda>r. BarCallback (bar_of_row r)) rs\<rparr>)))))"
  using assms
proof (induction rs arbitrary: X c)
  case Nil
  let ?D = "dumps L end_message"
  have rt: "loads L ?D = Some end_message" "NL \<notin> set ?D" "\<not> blank ?D"
    using Nil.prems(2) by (simp_all add: round_trip_def)
  have eq: "X @ Y = ?D @ [NL]" using Nil.prems(7) by (simp add: frames_of_def)
  show ?case
  proof (cases "Y = []")
    case True
    then have X: "X = ?D @ [NL]" using eq by simp
    have "frames_loop L (?D @ NL # []) c =
            (Broke, [], snd (disconnect L (emit (Print ReceivedEndOfData) c)))"
      using rt(1,3) dispatch_end [OF Nil.prems(4,5,6), of L]
      by (simp add: frames_loop_frame [OF rt(2)])
    then show ?thesis using True X by simp
  next
    case False
    obtain u' where u': "Y = u' @ [NL]" "X @ u' = ?D"
      using split_before_last [OF eq False] by blast
    have nl: "NL \<notin> set X" using rt(2) u'(2) by (metis Un_iff set_append)
    have "frames_loop L X c = (Drained, X, c\<lparr>out := out c @ map (\<lambda>r. BarCallback (bar_of_row r)) []\<rparr>)"
      using nl by (simp add: frames_loop_no_newline)
    moreover have "X @ Y = frames_of L (map bar_message []) @ ?D @ [NL]"
      using eq by (simp add: frames_of_def)
    ultimately show ?thesis using False nl by blast
  qed
next
  case (Cons r0 rs')
  let ?D0 = "dumps L (bar_message r0)"
  let ?S' = "frames_of L (map bar_message rs') @ dumps L end_message @ [NL]"
  let ?ev = "BarCallback (bar_of_row r0)"
  have rt: "loads L ?D0 = Some (bar_message r0)" "NL \<notin> set ?D0" "\<not> blank ?D0"
    "to_datetime L (JStr (row_date r0)) = Some (row_date r0)"
    using Cons.prems(1) by (simp_all add: round_trip_def)
  have rest: "\<forall>r\<in>set rs'. round_trip L (bar_message r)
                      \<and> to_datetime L (JStr (row_date r)) = Some (row_date r)"
    using Cons.prems(1) by simp
  have eq: "X @ Y = (?D0 @ [NL]) @ ?S'" using Cons.prems(7) by (simp add: frames_of_def)
  have step: "\<And>us. frames_loop L (?D0 @ NL # us) c = frames_loop L us (emit ?ev c)"
    using rt(1,3) dispatch_bar [OF Cons.prems(3) rt(4)]
    by (simp add: frames_loop_frame [OF rt(2)])
  from eq obtain vs where vs: "(X = (?D0 @ [NL]) @ vs \<and> vs @ Y = ?S')
                              \<or> (X @ vs = ?D0 @ [NL] \<and> Y = vs @ ?S')"
    unfolding append_eq_append_conv2 [of X Y "?D0 @ [NL]" ?S'] by blast
  have "(\<exists>us. X = (?D0 @ [NL]) @ us \<and> us @ Y = ?S')
        \<or> (\<exists>us. X @ us = ?D0 @ [NL] \<and> Y = us @ ?S' \<and> us \<noteq> [])"
  proof (cases "vs = []")
    case True
    then have "X = (?D0 @ [NL]) @ [] \<and> [] @ Y = ?S'" using vs by auto
    then show ?thesis by blast
  next
    case False
    then show ?thesis using vs by blast
  qed
  then consider (whole) us where "X = (?D0 @ [NL]) @ us" and "us @ Y = ?S'"
    | (part) us where "X @ us = ?D0 @ [NL]" and "Y = us @ ?S'" and "us \<noteq> []"
    by blast
  then show ?case
  proof cases
    case whole
    have c1: "bar_callback (emit ?ev c) \<noteq> None" "connected (emit ?ev c)" "\<not> lock (emit ?ev c)"
      "socket (emit ?ev c) = Some s"
      using Cons.prems(3-6) by (simp_all add: emit_fields)
    have fl: "frames_loop L X c = frames_loop L us (emit ?ev c)"
      using whole(1) step [of us] by simp
    note ih = Cons.IH [OF rest Cons.prems(2) c1 whole(2)]
    have o1: "\<And>xs. (emit ?ev c)\<lparr>out := out (emit ?ev c) @ map (\<lambda>r. BarCallback (bar_of_row r)) xs\<rparr>
                = c\<lparr>out := out c @ map (\<lambda>r. BarCallback (bar_of_row r)) (r0 # xs)\<rparr>"
      by (simp add: emit_def)
    from ih show ?thesis
    proof
      assume "Y \<noteq> [] \<and> (\<exists>rs1 rs2 r. rs' = rs1 @ rs2 \<and> NL \<notin> set r
              \<and> r @ Y = frames_of L (map bar_message rs2) @ dumps L end_message @ [NL]
              \<and> frames_loop L us (emit ?ev c) =
                  (Drained, r, (emit ?ev c)\<lparr>out := out (emit ?ev c) @ map (\<lambda>r. BarCallback (bar_of_row r)) rs1\<rparr>))"
      then obtain rs1 rs2 r where a: "Y \<noteq> []" "rs' = rs1 @ rs2" "NL \<notin> set r"
        "r @ Y = frames_of L (map bar_message rs2) @ dumps L end_message @ [NL]"
        "frames_loop L us (emit ?ev c) =
           (Drained, r, (emit ?ev c)\<lparr>out := out (emit ?ev c) @ map (\<lambda>r. BarCallback (bar_of_row r)) rs1\<rparr>)"
        by blast
      have "r0 # rs' = (r0 # rs1) @ rs2" using a(2) by simp
      moreover have "frames_loop L X c =
           (Drained, r, c\<lparr>out := out c @ map (\<lambda>r. BarCallback (bar_of_row r)) (r0 # rs1)\<rparr>)"
        using fl a(5) o1 [of rs1] by simp
      ultimately show ?thesis using a(1,3,4) by blast
    next
      assume "Y = [] \<and> frames_loop L us (emit ?ev c) =
             (Broke, [],
              snd (disconnect L (emit (Print ReceivedEndOfData)
                     ((emit ?ev c)\<lparr>out := out (emit ?ev c) @ map (\<lambda>r. BarCallback (bar_of_row r)) rs'\<rparr>))))"
      then show ?thesis using fl o1 [of rs'] by simp
    qed
  next
    case part
    obtain u' where u': "us = u' @ [NL]" "X @ u' = ?D0"
      using split_before_last [OF part(1,3)] by blast
    have nl: "NL \<notin> set X" using rt(2) u'(2) by (metis Un_iff set_append)
    have "frames_loop L X c = (Drained, X, c\<lparr>out := out c @ map (\<lambda>r. BarCallback (bar_of_row r)) []\<rparr>)"
      using nl by (simp add: frames_loop_no_newline)
    moreover have "X @ Y = frames_of L (map bar_message (r0 # rs')) @ dumps L end_message @ [NL]"
      using Cons.prems(7) by simp
    moreover have "r0 # rs' = [] @ (r0 # rs')" by simp
    moreover have "Y \<noteq> []" using part(2,3) by simp
    ultimately show ?thesis using nl by blast
  qed
qed

lemma listen_loop_not_running:
  "\<not> running c \<Longrightarrow> listen_loop L rs buf c = (Returns (), buf, emit (Print ListenThreadExiting) c)"
  by (cases rs) simp_all

lemma listen_loop_data:
  assumes "running c" and "socket c = Some s" and "\<not> closed s" and "d \<noteq> []"
  shows "listen_loop L (Data d # rest) buf c =
           (case frames_loop L (buf @ d) c of
              (Drained, buffer', c') \<Rightarrow> listen_loop L rest buffer' c'
            | (Broke, buffer', c') \<Rightarrow> listen_loop L rest buffer' c'
            | (JSONDecodeError, buffer', c') \<Rightarrow>
                listen_loop L rest buffer' (emit (Print ClientJSONError) c')
            | (Failed e, buffer', c') \<Rightarrow>
                (case on_listen_error L c' of (r, c'') \<Rightarrow> (r, buffer', c''))
            | (Stuck, buffer', c') \<Rightarrow> (BlocksOnLock, buffer', c'))"
  using assms by (simp add: recv_on_def)

lemma listen_loop_stream:
  assumes "\<forall>r\<in>set rs. round_trip L (bar_message r)
                      \<and> to_datetime L (JStr (row_date r)) = Some (row_date r)"
    and "round_trip L end_message"
    and "bar_callback c \<noteq> None" and "connected c" and "\<not> lock c" and "socket c = Some s"
    and "\<not> closed s" and "running c"
    and "\<forall>d\<in>set chunks. d \<noteq> []" and "NL \<notin> set buf"
    and "buf @ concat chunks = frames_of L (map bar_message rs) @ dumps L end_message @ [NL]"
  shows "listen_loop L (map Data chunks @ later) buf c =
           (Returns (), [],
            emit (Print ListenThreadExiting)
              (snd (disconnect L (emit (Print ReceivedEndOfData)
                      (c\<lparr>out := out c @ map (\<lambda>r. BarCallback (bar_of_row r)) rs\<rparr>)))))"
  using assms
proof (induction chunks arbitrary: buf rs c)
  case Nil
  then have "NL \<in> set buf" by simp
  then show ?case using Nil.prems(10) by simp
next
  case (Cons d ds)
  have d: "d \<noteq> []" and ds: "\<forall>d\<in>set ds. d \<noteq> []" using Cons.prems(9) by simp_all
  have eq: "(buf @ d) @ concat ds = frames_of L (map bar_message rs) @ dumps L end_message @ [NL]"
    using Cons.prems(11) by simp
  note unfold = listen_loop_data [OF Cons.prems(8,6,7) d, of L "map Data ds @ later" buf]
  from frames_loop_stream_prefix [OF Cons.prems(1-6) eq]
  show ?case
  proof
    assume "concat ds \<noteq> [] \<and> (\<exists>rs1 rs2 r. rs = rs1 @ rs2 \<and> NL \<notin> set r
              \<and> r @ concat ds = frames_of L (map bar_message rs2) @ dumps L end_message @ [NL]
              \<and> frames_loop L (buf @ d) c =
                  (Drained, r, c\<lparr>out := out c @ map (\<lambda>r. BarCallback (bar_of_row r)) rs1\<rparr>))"
    then obtain rs1 rs2 r where a: "rs = rs1 @ rs2" "NL \<notin> set r"
      "r @ concat ds = frames_of L (map bar_message rs2) @ dumps L end_message @ [NL]"
      "frames_loop L (buf @ d) c =
         (Drained, r, c\<lparr>out := out c @ map (\<lambda>r. BarCallback (bar_of_row r)) rs1\<rparr>)"
      by blast
    let ?c1 = "c\<lparr>out := out c @ map (\<lambda>r. BarCallback (bar_of_row r)) rs1\<rparr>"
    have good2: "\<forall>r\<in>set rs2. round_trip L (bar_message r)
                      \<and> to_datetime L (JStr (row_date r)) = Some (row_date r)"
      using Cons.prems(1) a(1) by simp
    have c1: "bar_callback ?c1 \<noteq> None" "connected ?c1" "\<not> lock ?c1" "socket ?c1 = Some s"
      "running ?c1"
      using Cons.prems(3,4,5,6,8) by simp_all
    have o: "?c1\<lparr>out := out ?c1 @ map (\<lambda>r. BarCallback (bar_of_row r)) rs2\<rparr>
             = c\<lparr>out := out c @ map (\<lambda>r. BarCallback (bar_of_row r)) rs\<rparr>"
      using a(1) by simp
    have "listen_loop L (map Data (d # ds) @ later) buf c = listen_loop L (map Data ds @ later) r ?c1"
      using unfold a(4) by simp
    also have "\<dots> = (Returns (), [],
            emit (Print ListenThreadExiting)
              (snd (disconnect L (emit (Print ReceivedEndOfData)
                      (?c1\<lparr>out := out ?c1 @ map (\<lambda>r. BarCallback (bar_of_row r)) rs2\<rparr>)))))"
      by (rule Cons.IH [OF good2 Cons.prems(2) c1(1-4) Cons.prems(7) c1(5) ds a(2,3)])
    finally show ?thesis by (simp only: o)
  next
    assume b: "concat ds = [] \<and> frames_loop L (buf @ d) c =
             (Broke, [],
              snd (disconnect L (emit (Print ReceivedEndOfData)
                     (c\<lparr>out := out c @ map (\<lambda>r. BarCallback (bar_of_row r)) rs\<rparr>))))"
    let ?c0 = "emit (Print ReceivedEndOfData)
                 (c\<lparr>out := out c @ map (\<lambda>r. BarCallback (bar_of_row r)) rs\<rparr>)"
    let ?c2 = "snd (disconnect L ?c0)"
    have c0: "connected ?c0" "\<not> lock ?c0" "socket ?c0 = Some s"
      using Cons.prems(4,5,6) by (simp_all add: emit_def)
    have nr: "\<not> running ?c2"
      by (simp add: disconnect_connected [OF c0])
    have "listen_loop L (map Data (d # ds) @ later) buf c = listen_loop L (map Data ds @ later) [] ?c2"
      using unfold b by simp
    also have "\<dots> = (Returns (), [], emit (Print ListenThreadExiting) ?c2)"
      using nr by (rule listen_loop_not_running)
    finally show ?thesis .
  qed
qed

lemma stream_bars_running:
  assumes "data_df e = Some data" and "aggregate data = Inr df"
    and "\<forall>i<length df. running_at i"
    and "\<not> closed (socks e sid)" and "\<not> broken (socks e sid)"
  shows "stream_bars L aggregate running_at sid e =
           (Returns (),
            e\<lparr>socks := (socks e)(sid := (socks e sid)
                    \<lparr>sent := sent (socks e sid)
                             @ map (\<lambda>r. dumps L (bar_message r) @ [NL]) df
                             @ [dumps L end_message @ [NL]]\<rparr>),
               printed := printed e @ map (\<lambda>r. StreamingBar (row_date r)) df
                            @ [FinishedStreamingBars]\<rparr>)"
proof -
  have s1: "stream_rows L running_at sid 0 df e =
           e\<lparr>socks := (socks e)(sid := (socks e sid)
                    \<lparr>sent := sent (socks e sid) @ map (\<lambda>r. dumps L (bar_message r) @ [NL]) df\<rparr>),
              printed := printed e @ map (\<lambda>r. StreamingBar (row_date r)) df\<rparr>"
    using stream_rows_open [of e sid df running_at 0 L] assms(3,4,5) by simp
  show ?thesis
    using assms(1,2,4,5)
    by (simp add: stream_bars_def s1 send_message_def sock_send_def say_def end_message_def)
qed

text \<open>
  Claim C2. The emulator streams the \<open>N\<close> rows of its (aggregated) frame to an open
  socket while the running flag stays set; the client is connected and running, with a
  bar callback registered, and the library decodes each message that is sent to what was
  encoded. However the stream is cut into non-empty reads, the receive task calls the
  bar callback once per row, in the order of the rows, with the bar of that row; then it
  sees the end of the stream once (it prints that \<^verbatim>\<open>endOfData\<close> was received), disconnects
  and exits. The trace holds exactly these events after those it held before. The order
  of the rows is the order of the bar source, which the spec takes to be ordered by
  timestamp.
\<close>

theorem streamed_bars_reach_callback_in_order:
  assumes "data_df e = Some data" and "aggregate data = Inr df"
    and "\<forall>i<length df. running_at i"
    and "\<not> closed (socks e sid)" and "\<not> broken (socks e sid)" and "sent (socks e sid) = []"
    and "\<forall>r\<in>set df. round_trip L (bar_message r)
                      \<and> to_datetime L (JStr (row_date r)) = Some (row_date r)"
    and "round_trip L end_message"
    and "connected c" and "running c" and "\<not> lock c" and "socket c = Some s" and "\<not> closed s"
    and "bar_callback c \<noteq> None"
    and "\<forall>d\<in>set chunks. d \<noteq> []"
    and "concat chunks = concat (sent (socks (snd (stream_bars L aggregate running_at sid e)) sid))"
  shows "\<exists>c'. listen L (map Data chunks @ later) c = (Returns (), c')
           \<and> out c' = out c @ map (\<lambda>r. BarCallback (bar_of_row r)) df
                         @ [Print ReceivedEndOfData]
                         @ (if broken s then [Print DisconnectSendError] else [])
                         @ [Print DisconnectedFromEmulator, Print ListenThreadExiting]
           \<and> \<not> connected c' \<and> \<not> running c'"
proof -
  have srv: "sent (socks (snd (stream_bars L aggregate running_at sid e)) sid) =
               map (\<lambda>r. dumps L (bar_message r) @ [NL]) df @ [dumps L end_message @ [NL]]"
    using assms(6)
      stream_bars_running [where e = e and data = data and aggregate = aggregate and df = df
        and running_at = running_at and sid = sid and L = L, OF assms(1-5)]
    by simp
  have eq: "[] @ concat chunks = frames_of L (map bar_message df) @ dumps L end_message @ [NL]"
    using assms(16) by (simp add: srv frames_of_def comp_def)
  let ?c0 = "emit (Print ReceivedEndOfData)
               (c\<lparr>out := out c @ map (\<lambda>r. BarCallback (bar_of_row r)) df\<rparr>)"
  have c0: "connected ?c0" "\<not> lock ?c0" "socket ?c0 = Some s"
    using assms(9,11,12) by (simp_all add: emit_def)
  have run: "listen_loop L (map Data chunks @ later) [] c =
           (Returns (), [], emit (Print ListenThreadExiting) (snd (disconnect L ?c0)))"
    by (rule listen_loop_stream [OF assms(7,8,14,9,11,12,13,10,15) _ eq]) simp
  have fin: "out (snd (disconnect L ?c0)) =
               out c @ map (\<lambda>r. BarCallback (bar_of_row r)) df @ [Print ReceivedEndOfData]
                 @ (if broken s then [Print DisconnectSendError] else [])
                 @ [Print DisconnectedFromEmulator]"
    "\<not> connected (snd (disconnect L ?c0))" "\<not> running (snd (disconnect L ?c0))"
    using assms(13) by (simp_all add: disconnect_connected [OF c0] emit_fields)
  show ?thesis
    by (simp add: listen_def run fin emit_fields)
qed

lemma example_rows_round_trip:
  "\<forall>r\<in>set example_rows. round_trip pylib (bar_message r)
       \<and> to_datetime pylib (JStr (row_date r)) = Some (row_date r)"
  by code_simp

lemma end_message_round_trip: "round_trip pylib end_message"
  by code_simp

lemma example_chunks_nonempty: "\<forall>d\<in>set example_chunks. d \<noteq> []"
  by code_simp

lemma example_chunks_concat:
  "concat example_chunks =
     concat (map (\<lambda>r. json_dumps (bar_message r) @ [NL]) example_rows @ [json_dumps end_message @ [NL]])"
  by (simp add: example_chunks_def example_rows_def del: json_dumps.simps)

theorem streamed_bars_reach_callback_in_order_witness:
  "\<exists>c'. listen pylib (map Data example_chunks) example_client = (Returns (), c')
        \<and> out c' = [Print ConnectedTo, BarCallback (bar_of_row (example_rows ! 0)),
                     BarCallback (bar_of_row (example_rows ! 1)),
                     BarCallback (bar_of_row (example_rows ! 2)),
                     Print ReceivedEndOfData, Print DisconnectedFromEmulator,
                     Print ListenThreadExiting]
        \<and> \<not> connected c' \<and> \<not> running c'"
proof -
  have a: "Inr example_rows = (Inr example_rows :: exn + row list)"
    "\<forall>i<length example_rows. (\<lambda>i. True) i" "sent (socks example_emulator 0) = []"
    by (simp_all add: example_emulator_def init_emulator_def fresh_sock_def)
  have srv: "concat example_chunks =
          concat (sent (socks (snd (stream_bars pylib Inr (\<lambda>i. True) 0 example_emulator)) 0))"
    using a(3)
      stream_bars_running [where e = example_emulator and data = example_rows and aggregate = Inr
        and df = example_rows and running_at = "\<lambda>i. True" and sid = 0 and L = pylib,
        OF example_emulator_simps(4) a(1) a(2) example_emulator_simps(2,3)]
    by (simp add: example_chunks_concat pylib_def del: json_dumps.simps)
  have cb: "bar_callback example_client \<noteq> None" by (simp add: example_client_simps)
  note t = streamed_bars_reach_callback_in_order [where e = example_emulator and data = example_rows
      and aggregate = Inr and df = example_rows and running_at = "\<lambda>i. True" and sid = 0
      and L = pylib and c = example_client and s = fresh_sock and chunks = example_chunks
      and later = "[]",
      OF example_emulator_simps(4) a(1) a(2) example_emulator_simps(2,3) a(3)
        example_rows_round_trip end_message_round_trip example_client_simps(1,2,3,4,5) cb
        example_chunks_nonempty srv]
  have rows: "example_rows = [example_rows ! 0, example_rows ! 1, example_rows ! 2]"
    by (simp add: example_rows_def)
  have m: "map (\<lambda>r. BarCallback (bar_of_row r)) example_rows =
           [BarCallback (bar_of_row (example_rows ! 0)), BarCallback (bar_of_row (example_rows ! 1)),
            BarCallback (bar_of_row (example_rows ! 2))]"
    by (subst rows) simp
  show ?thesis
    using t by (simp add: example_client_simps m)
qed

section \<open>Reads cut inside a frame, on the client\<close>

lemma frames_loop_more_data:
  "frames_loop L x c = (Drained, r, c') \<Longrightarrow> frames_loop L (x @ y) c = frames_loop L (r @ y) c'"
proof (induction "length x" arbitrary: x c rule: less_induct)
  case less
  show ?case
  proof (cases "NL \<in> set x")
    case False
    then have "frames_loop L x c = (Drained, x, c)" by (rule frames_loop_no_newline)
    then show ?thesis using less.prems by simp
  next
    case True
    then obtain line rest where x: "x = line @ NL # rest" and nl: "NL \<notin> set line"
      by (meson split_list_first)
    have shorter: "length rest < length x" using x by simp
    note here = frames_loop_frame [OF nl, of L rest c]
    note there = frames_loop_frame [OF nl, of L "rest @ y" c]
    show ?thesis
    proof (cases "blank line")
      case True
      then have "frames_loop L rest c = (Drained, r, c')" using less.prems x here by simp
      then have "frames_loop L (rest @ y) c = frames_loop L (r @ y) c'"
        using less.hyps [OF shorter] by blast
      then show ?thesis using True x there by simp
    next
      case False
      show ?thesis
      proof (cases "loads L line")
        case None
        then show ?thesis using False less.prems x here by simp
      next
        case (Some msg)
        obtain res c1 where d: "dispatch L msg c = (res, c1)" by (cases "dispatch L msg c")
        show ?thesis
        proof (cases res)
          case (Returns brk)
          show ?thesis
          proof (cases brk)
            case True
            then show ?thesis using False Some d Returns less.prems x here by simp
          next
            case brk: False
            then have "frames_loop L rest c1 = (Drained, r, c')"
              using False Some d Returns less.prems x here by simp
            then have "frames_loop L (rest @ y) c1 = frames_loop L (r @ y) c'"
              using less.hyps [OF shorter] by blast
            then show ?thesis using False Some d Returns brk x there by simp
          qed
        next
          case (Raises e)
          then show ?thesis using False Some d less.prems x here by simp
        next
          case BlocksOnLock
          then show ?thesis using False Some d less.prems x here by simp
        next
          case BlocksOnRecv
          then show ?thesis using False Some d less.prems x here by simp
        qed
      qed
    qed
  qed
qed

lemma dispatch_continue_keeps:
  assumes "dispatch L msg c = (Returns False, c')"
  shows "running c' = running c \<and> socket c' = socket c"
  using assms
  by (auto simp add: dispatch_def emit_def split: sum.splits if_splits prod.splits outcome.splits)

lemma frames_loop_drained_keeps:
  "frames_loop L x c = (Drained, r, c') \<Longrightarrow> running c' = running c \<and> socket c' = socket c"
proof (induction "length x" arbitrary: x c rule: less_induct)
  case less
  show ?case
  proof (cases "NL \<in> set x")
    case False
    then have "frames_loop L x c = (Drained, x, c)" by (rule frames_loop_no_newline)
    then show ?thesis using less.prems by simp
  next
    case True
    then obtain line rest where x: "x = line @ NL # rest" and nl: "NL \<notin> set line"
      by (meson split_list_first)
    have shorter: "length rest < length x" using x by simp
    note here = frames_loop_frame [OF nl, of L rest c]
    show ?thesis
    proof (cases "blank line")
      case True
      then have "frames_loop L rest c = (Drained, r, c')" using less.prems x here by simp
      then show ?thesis using less.hyps [OF shorter] by blast
    next
      case False
      show ?thesis
      proof (cases "loads L line")
        case None
        then show ?thesis using False less.prems x here by simp
      next
        case (Some msg)
        obtain res c1 where d: "dispatch L msg c = (res, c1)" by (cases "dispatch L msg c")
        have "res = Returns False \<and> frames_loop L rest c1 = (Drained, r, c')"
          using False Some d less.prems x here
          by (cases res) (auto split: if_splits)
        then show ?thesis
          using less.hyps [OF shorter, of c1] dispatch_continue_keeps [of L msg c c1] d by simp
      qed
    qed
  qed
qed

text \<open>
  The client's receive task buffers. When the frames completed by a read are all taken
  without a decode error, an exception or the end of the stream, it makes no difference
  whether the bytes that follow arrive in the same read or in the next one: the two
  reads \<open>d1\<close>, \<open>d2\<close> leave the task where the single read \<open>d1 @ d2\<close> leaves it.
\<close>

theorem listen_loop_split_read:
  assumes "frames_loop L (buffer @ d1) c = (Drained, r, c')"
    and "running c" and "socket c = Some s" and "\<not> closed s"
    and "d1 \<noteq> []" and "d2 \<noteq> []"
  shows "listen_loop L (Data d1 # Data d2 # rs) buffer c = listen_loop L (Data (d1 @ d2) # rs) buffer c"
proof -
  have k: "running c'" "socket c' = Some s"
    using frames_loop_drained_keeps [OF assms(1)] assms(2,3) by simp_all
  have m: "frames_loop L (buffer @ d1 @ d2) c = frames_loop L (r @ d2) c'"
    using frames_loop_more_data [OF assms(1), of d2] by simp
  have a: "listen_loop L (Data d1 # Data d2 # rs) buffer c = listen_loop L (Data d2 # rs) r c'"
    using listen_loop_data [OF assms(2,3,4,5), of L "Data d2 # rs" buffer] assms(1) by simp
  have b: "listen_loop L (Data d2 # rs) r c' =
           (case frames_loop L (r @ d2) c' of
              (Drained, buffer', c') \<Rightarrow> listen_loop L rs buffer' c'
            | (Broke, buffer', c') \<Rightarrow> listen_loop L rs buffer' c'
            | (JSONDecodeError, buffer', c') \<Rightarrow>
                listen_loop L rs buffer' (emit (Print ClientJSONError) c')
            | (Failed e, buffer', c') \<Rightarrow>
                (case on_listen_error L c' of (r, c'') \<Rightarrow> (r, buffer', c''))
            | (Stuck, buffer', c') \<Rightarrow> (BlocksOnLock, buffer', c'))"
    by (rule listen_loop_data [OF k(1,2) assms(4,6)])
  have c: "listen_loop L (Data (d1 @ d2) # rs) buffer c =
           (case frames_loop L (buffer @ d1 @ d2) c of
              (Drained, buffer', c') \<Rightarrow> listen_loop L rs buffer' c'
            | (Broke, buffer', c') \<Rightarrow> listen_loop L rs buffer' c'
            | (JSONDecodeError, buffer', c') \<Rightarrow>
                listen_loop L rs buffer' (emit (Print ClientJSONError) c')
            | (Failed e, buffer', c') \<Rightarrow>
                (case on_listen_error L c' of (r, c'') \<Rightarrow> (r, buffer', c''))
            | (Stuck, buffer', c') \<Rightarrow> (BlocksOnLock, buffer', c'))"
  proof -
    have ne: "d1 @ d2 \<noteq> []" using assms(5) by simp
    show ?thesis using listen_loop_data [OF assms(2,3,4) ne, of L rs buffer] by simp
  qed
  show ?thesis by (simp only: a b c m)
qed

lemma loads_bad_frame: "json_loads bad_frame = None"
  by code_simp

lemma bad_frame_line: "NL \<notin> set bad_frame" "\<not> blank bad_frame"
  by (simp_all add: bad_frame_def blank_def isspace_def)

theorem listen_loop_split_read_witness:
  "listen_loop pylib [Data (take 10 status_frame), Data (drop 10 status_frame @ [NL])] [] example_client
   = listen_loop pylib [Data (status_frame @ [NL])] [] example_client"
proof -
  have nl: "NL \<notin> set (take 10 status_frame)"
    using status_frame_line(1) by (meson in_set_takeD)
  have dr: "frames_loop pylib ([] @ take 10 status_frame) example_client
            = (Drained, take 10 status_frame, example_client)"
    using nl by (simp add: frames_loop_no_newline)
  have ne: "take 10 status_frame \<noteq> []" "drop 10 status_frame @ [NL] \<noteq> []"
    by (simp_all add: status_frame_def)
  have "listen_loop pylib [Data (take 10 status_frame), Data (drop 10 status_frame @ [NL])] []
          example_client
        = listen_loop pylib [Data (take 10 status_frame @ drop 10 status_frame @ [NL])] []
          example_client"
    by (rule listen_loop_split_read [OF dr example_client_simps(2,4,5) ne])
  moreover have "take 10 status_frame @ drop 10 status_frame @ [NL] = status_frame @ [NL]"
    by simp
  ultimately show ?thesis by (simp only:)
qed

text \<open>
  After a frame that does not parse the inner loop is left through the handler of
  \<^verbatim>\<open>JSONDecodeError\<close>: the complete frames behind it stay in the buffer until the next
  read brings more data. Read together with the bad frame, the order status is not
  dispatched; read on its own after it, it is.
\<close>

lemma listen_frame_after_json_error:
  "listen_loop pylib [Data (bad_frame @ NL # status_frame @ [NL])] [] example_client
     = (BlocksOnRecv, status_frame @ [NL], emit (Print ClientJSONError) example_client)
   \<and> listen_loop pylib [Data (bad_frame @ [NL]), Data (status_frame @ [NL])] [] example_client
     = (BlocksOnRecv, [],
        emit (OrderStatusCallback \<lparr>orderId = JInt 1, status = JStr ''Filled'',
                                    avgFillPrice = JFloat 101\<rparr>)
          (emit (Print ClientJSONError) example_client))"
proof -
  have l: "loads pylib bad_frame = None" "loads pylib status_frame = Some status_reply"
    by (simp_all add: pylib_def loads_bad_frame loads_status_frame)
  have one: "frames_loop pylib (bad_frame @ NL # status_frame @ [NL]) example_client
             = (JSONDecodeError, status_frame @ [NL], example_client)"
    using l(1) bad_frame_line(2) by (simp add: frames_loop_frame [OF bad_frame_line(1)])
  have two: "frames_loop pylib (bad_frame @ NL # []) example_client
             = (JSONDecodeError, [], example_client)"
    using l(1) bad_frame_line(2) by (simp add: frames_loop_frame [OF bad_frame_line(1)])
  have d: "dispatch pylib status_reply (emit (Print ClientJSONError) example_client)
           = (Returns False,
              emit (OrderStatusCallback \<lparr>orderId = JInt 1, status = JStr ''Filled'',
                                          avgFillPrice = JFloat 101\<rparr>)
                (emit (Print ClientJSONError) example_client))"
  proof -
    have "order_status_callback (emit (Print ClientJSONError) example_client) = Some 2"
      by (simp add: emit_def example_client_simps)
    then show ?thesis
      by (simp add: dispatch_def status_reply_def dict_lookup_def make_trade_def and_then_def)
  qed
  have three: "frames_loop pylib (status_frame @ NL # []) (emit (Print ClientJSONError) example_client)
             = (Drained, [],
                emit (OrderStatusCallback \<lparr>orderId = JInt 1, status = JStr ''Filled'',
                                            avgFillPrice = JFloat 101\<rparr>)
                  (emit (Print ClientJSONError) example_client))"
    using l(2) status_frame_line(2) d
    by (simp add: frames_loop_frame [OF status_frame_line(1)] frames_loop_no_newline)
  have r: "running example_client" "socket example_client = Some fresh_sock" "\<not> closed fresh_sock"
    by (simp_all add: example_client_simps)
  show ?thesis
    using one two three r
    by (simp add: recv_on_def emit_fields)
qed

end
